theory Spec2Isabelle
  imports Main "HOL-Library.Word" "HOL-Library.Char_ord" "HOL-Library.List_Lexorder"
begin

section \<open>Abnormal termination\<close>

text \<open>
  The coordinator is C++: a \<^verbatim>\<open>DCHECK\<close> that fails aborts the process in a debug
  build and is compiled away in a release build, and dereferencing a null
  \<^verbatim>\<open>BackendExecState*\<close> crashes. Both are results of the model. A blocking wait on
  the completion condition variable that is never woken up again is the third
  abnormal result. The flag \<open>dchecks\<close> that the operations take says whether the
  build checks its \<^verbatim>\<open>DCHECK\<close>s.
\<close>

datatype fault = DCheckFailed | NullDereference | WaitsForever

type_synonym 'a result = "fault + 'a"

definition bind_r :: "'a result \<Rightarrow> ('a \<Rightarrow> 'b result) \<Rightarrow> 'b result" where
  "bind_r m f = (case m of Inl e \<Rightarrow> Inl e | Inr x \<Rightarrow> f x)"

definition DCHECK :: "bool \<Rightarrow> bool \<Rightarrow> unit result" where
  "DCHECK dchecks c = (if dchecks \<and> \<not> c then Inl DCheckFailed else Inr ())"

section \<open>Debug options (coordinator.cc, lines 74-85 and 235-283)\<close>

text \<open>
  \<^verbatim>\<open>TExecNodePhase::type\<close> and \<^verbatim>\<open>TDebugAction::type\<close> are Thrift enums; the
  generated tables \<^verbatim>\<open>_TExecNodePhase_VALUES_TO_NAMES\<close> and
  \<^verbatim>\<open>_TDebugAction_VALUES_TO_NAMES\<close> (a \<^verbatim>\<open>std::map<int, const char*>\<close>, walked in
  key order) are not part of the source file, and neither is libc's \<^verbatim>\<open>atoi\<close>. They
  are parameters of the model: an enum value is its integer, a table is the list of
  its entries in iteration order, and the three enum members that the source names
  (\<^verbatim>\<open>INVALID\<close>, \<^verbatim>\<open>CLOSE\<close>, \<^verbatim>\<open>WAIT\<close>) are fields of the parameter record.
\<close>

type_synonym TExecNodePhase = int
type_synonym TDebugAction = int

record DebugEnv =
  phase_names :: "(int \<times> string) list"
  action_names :: "(int \<times> string) list"
  PHASE_INVALID :: TExecNodePhase
  PHASE_CLOSE :: TExecNodePhase
  ACTION_WAIT :: TDebugAction
  atoi :: "string \<Rightarrow> int"

record DebugOptions =
  backend_num :: int
  node_id :: int
  action :: TDebugAction
  phase :: TExecNodePhase

text \<open>The default constructor of \<^verbatim>\<open>DebugOptions\<close>.\<close>

definition DebugOptions_init :: "DebugEnv \<Rightarrow> DebugOptions" where
  "DebugOptions_init env =
     \<lparr>backend_num = - 1, node_id = - 1, action = ACTION_WAIT env, phase = PHASE_INVALID env\<rparr>"

text \<open>
  \<^verbatim>\<open>boost::iequals\<close> compares two strings character by character after mapping each
  to upper case (in the classic locale: the letters a to z only).
\<close>

definition to_upper :: "char \<Rightarrow> char" where
  "to_upper c =
     (case map_of (zip ''abcdefghijklmnopqrstuvwxyz'' ''ABCDEFGHIJKLMNOPQRSTUVWXYZ'') c of
        Some u \<Rightarrow> u
      | None \<Rightarrow> c)"

definition iequals :: "string \<Rightarrow> string \<Rightarrow> bool" where
  "iequals a b = (map to_upper a = map to_upper b)"

text \<open>
  \<^verbatim>\<open>boost::split(components, s, is_any_of(":"), token_compress_on)\<close>: the tokens are the
  stretches between maximal runs of delimiter characters; a delimiter run at the
  start or at the end of the input leaves an empty token there. \<open>cur\<close> is the
  token being read, reversed; \<open>in_run\<close> says that the last character was a delimiter.
\<close>

definition is_any_of :: "string \<Rightarrow> char \<Rightarrow> bool" where
  "is_any_of ds c = (c \<in> set ds)"

fun split_from :: "(char \<Rightarrow> bool) \<Rightarrow> string \<Rightarrow> bool \<Rightarrow> string \<Rightarrow> string list" where
  "split_from p cur in_run [] = [rev cur]"
| "split_from p cur in_run (c # cs) =
     (if p c then (if in_run then split_from p [] True cs
                   else rev cur # split_from p [] True cs)
      else split_from p (c # cur) False cs)"

definition split_compress :: "(char \<Rightarrow> bool) \<Rightarrow> string \<Rightarrow> string list" where
  "split_compress p s = split_from p [] False s"

text \<open>The two lookups walk their table and return at the first name that matches.\<close>

fun lookup_name :: "(int \<times> string) list \<Rightarrow> string \<Rightarrow> int option" where
  "lookup_name [] key = None"
| "lookup_name (entry # rest) key =
     (if iequals key (snd entry) then Some (fst entry) else lookup_name rest key)"

definition GetExecNodePhase :: "DebugEnv \<Rightarrow> string \<Rightarrow> TExecNodePhase" where
  "GetExecNodePhase env key =
     (case lookup_name (phase_names env) key of Some v \<Rightarrow> v | None \<Rightarrow> PHASE_INVALID env)"

definition GetDebugAction :: "DebugEnv \<Rightarrow> string \<Rightarrow> TDebugAction" where
  "GetDebugAction env key =
     (case lookup_name (action_names env) key of Some v \<Rightarrow> v | None \<Rightarrow> ACTION_WAIT env)"

text \<open>
  \<^verbatim>\<open>ProcessQueryOptions\<close>; \<open>debug_action\<close> is \<open>None\<close> when the query option is not
  set. The final \<^verbatim>\<open>DCHECK\<close> forbids the combination CLOSE and WAIT.
\<close>

definition ProcessQueryOptions ::
  "bool \<Rightarrow> DebugEnv \<Rightarrow> string option \<Rightarrow> DebugOptions \<Rightarrow> DebugOptions result" where
  "ProcessQueryOptions dchecks env debug_action debug_options =
     (case debug_action of
        None \<Rightarrow> Inr (debug_options\<lparr>phase := PHASE_INVALID env\<rparr>)
      | Some s \<Rightarrow>
          if s = [] then Inr (debug_options\<lparr>phase := PHASE_INVALID env\<rparr>)
          else
            let components = split_compress (is_any_of '':'') s in
            if length components < 3 \<or> length components > 4 then Inr debug_options
            else
              let d =
                (if length components = 3
                 then debug_options
                   \<lparr>backend_num := - 1,
                    node_id := atoi env (components ! 0),
                    phase := GetExecNodePhase env (components ! 1),
                    action := GetDebugAction env (components ! 2)\<rparr>
                 else debug_options
                   \<lparr>backend_num := atoi env (components ! 0),
                    node_id := atoi env (components ! 1),
                    phase := GetExecNodePhase env (components ! 2),
                    action := GetDebugAction env (components ! 3)\<rparr>)
              in bind_r (DCHECK dchecks
                           (\<not> (phase d = PHASE_CLOSE env \<and> action d = ACTION_WAIT env)))
                   (\<lambda>_. Inr d))"

text \<open>
  \<^verbatim>\<open>Coordinator::Exec\<close>, lines 405-410: the debug options that the constructor of the
  exec state of backend \<open>n\<close> receives (\<open>None\<close> is the null pointer).
\<close>

definition backend_debug_options :: "DebugEnv \<Rightarrow> DebugOptions \<Rightarrow> int \<Rightarrow> DebugOptions option" where
  "backend_debug_options env debug_options n =
     (if phase debug_options \<noteq> PHASE_INVALID env
         \<and> (backend_num debug_options = - 1 \<or> backend_num debug_options = n)
      then Some debug_options else None)"


section \<open>Status values\<close>

text \<open>
  Modelled from the spec: class \<^verbatim>\<open>Status\<close> (common/status.h) and the Thrift struct
  \<^verbatim>\<open>TStatus\<close> are not part of the source file. A status is OK, or an error with a
  code and a list of messages; \<^verbatim>\<open>CANCELLED\<close> is one of the error codes; adding an
  error message to a status appends it and keeps the code (the spec: "append the
  error messages to the state's status rather than overwriting"). A status built
  from a message alone is an internal error.
\<close>

datatype TStatusCode = TStatusCode_OK | TStatusCode_CANCELLED | TStatusCode_INTERNAL_ERROR
  | TStatusCode_OTHER nat

record TStatus =
  status_code :: TStatusCode
  error_msgs :: "string list"

datatype Status = OK | Error TStatusCode "string list"

definition Status_of_TStatus :: "TStatus \<Rightarrow> Status" where
  "Status_of_TStatus t =
     (if status_code t = TStatusCode_OK then OK else Error (status_code t) (error_msgs t))"

definition Status_msg :: "string \<Rightarrow> Status" where
  "Status_msg m = Error TStatusCode_INTERNAL_ERROR [m]"

definition CANCELLED :: Status where
  "CANCELLED = Error TStatusCode_CANCELLED [''Cancelled'']"

fun ok :: "Status \<Rightarrow> bool" where
  "ok OK = True"
| "ok (Error c ms) = False"

fun IsCancelled :: "Status \<Rightarrow> bool" where
  "IsCancelled OK = False"
| "IsCancelled (Error c ms) = (c = TStatusCode_CANCELLED)"

fun AddErrorMsg :: "string \<Rightarrow> Status \<Rightarrow> Status" where
  "AddErrorMsg m OK = Error TStatusCode_INTERNAL_ERROR [m]"
| "AddErrorMsg m (Error c ms) = Error c (ms @ [m])"

fun AddError :: "Status \<Rightarrow> Status \<Rightarrow> Status" where
  "AddError OK st = st"
| "AddError (Error c ms) OK = Error c ms"
| "AddError (Error c ms) (Error c' ms') = Error c' (ms' @ ms)"

text \<open>\<^verbatim>\<open>boost::algorithm::join\<close>.\<close>

fun join :: "string list \<Rightarrow> string \<Rightarrow> string" where
  "join [] sep = []"
| "join [x] sep = x"
| "join (x # y # zs) sep = x @ sep @ join (y # zs) sep"

section \<open>Identifiers and numbers in messages\<close>

text \<open>
  Modelled from the spec: \<^verbatim>\<open>PrintId\<close> (util/debug-util.h) is not part of the source
  file. An id is a pair of 64-bit halves, "printed as hi:lo hex in logs; hi_lo in
  file paths". \<open>hex_digit\<close> is only applied to numbers below 16.
\<close>

record TUniqueId =
  hi :: "64 word"
  lo :: "64 word"

definition hex_digit :: "nat \<Rightarrow> char" where
  "hex_digit d = ''0123456789abcdef'' ! d"

fun show_hex :: "nat \<Rightarrow> string" where
  "show_hex n = (if n < 16 then [hex_digit n] else show_hex (n div 16) @ [hex_digit (n mod 16)])"

fun show_nat :: "nat \<Rightarrow> string" where
  "show_nat n =
     (if n < 10 then [hex_digit n] else show_nat (n div 10) @ [hex_digit (n mod 10)])"

definition PrintId :: "TUniqueId \<Rightarrow> string \<Rightarrow> string" where
  "PrintId uid sep = show_hex (unat (hi uid)) @ sep @ show_hex (unat (lo uid))"

section \<open>Ordered maps\<close>

text \<open>
  A \<^verbatim>\<open>std::map<std::string, V>\<close> is the list of its entries in iteration order, which
  is the order of the keys. \<open>map_of\<close> looks a key up. \<open>smap_put\<close> stores an entry
  at its place in the order, replacing the entry of an equal key.
\<close>

fun smap_put :: "string \<Rightarrow> 'v \<Rightarrow> (string \<times> 'v) list \<Rightarrow> (string \<times> 'v) list" where
  "smap_put k v [] = [(k, v)]"
| "smap_put k v (e # rest) =
     (if k = fst e then (k, v) # rest
      else if k < fst e then (k, v) # e # rest
      else e # smap_put k v rest)"

text \<open>\<^verbatim>\<open>m[k] += c\<close>: a key that is absent is first entered with the value 0.\<close>

definition smap_add :: "string \<Rightarrow> 64 word \<Rightarrow> (string \<times> 64 word) list \<Rightarrow> (string \<times> 64 word) list" where
  "smap_add k c m = smap_put k ((case map_of m k of None \<Rightarrow> 0 | Some v \<Rightarrow> v) + c) m"

text \<open>\<^verbatim>\<open>m.insert(entry)\<close>: an entry whose key is present already is not stored.\<close>

definition smap_insert :: "string \<times> 'v \<Rightarrow> (string \<times> 'v) list \<Rightarrow> (string \<times> 'v) list" where
  "smap_insert e m = (if map_of m (fst e) = None then smap_put (fst e) (snd e) m else m)"


section \<open>The state of a query (coordinator.cc, lines 91-170, and coordinator.h)\<close>

text \<open>
  Modelled from the spec: the report struct \<^verbatim>\<open>TReportExecStatusParams\<close> and the
  declaration of class \<^verbatim>\<open>Coordinator\<close> (coordinator.h) are not part of the source
  file; their fields are those the source file reads and writes. The fields of a
  report carry the prefix \<open>rep_\<close>, the field \<^verbatim>\<open>done\<close> is \<open>is_done\<close>. An optional Thrift
  field (\<^verbatim>\<open>__isset\<close>) is an \<open>option\<close>. A profile tree is kept as it was sent; the
  profile of an exec state is the sequence of the cumulative profiles that
  \<^verbatim>\<open>RuntimeProfile::Update\<close> has merged into it, and the insert statistics of the
  query are the sequence of the maps merged into them. The averaged profiles, the
  scan-node counters and the progress updater are outside the model; no lock is
  modelled: each operation below runs as one step. \<^verbatim>\<open>num_remaining_backends_\<close> is
  a counter, taken as an integer.
\<close>

datatype TRuntimeProfileTree = TRuntimeProfileTree string "(string \<times> int) list" "TRuntimeProfileTree list"

datatype TInsertStats = TInsertStats int

record TInsertExecStatus =
  ies_files_to_move :: "(string \<times> string) list"
  ies_num_appended_rows :: "(string \<times> 64 word) list"
  ies_insert_stats :: "(string \<times> TInsertStats) list option"

record TReportExecStatusParams =
  rep_backend_num :: int
  rep_status :: TStatus
  rep_done :: bool
  rep_profile :: TRuntimeProfileTree
  rep_error_log :: "string list option"
  rep_insert_exec_status :: "TInsertExecStatus option"

record BackendExecState =
  fragment_instance_id :: TUniqueId
  fragment_idx :: nat
  status :: Status
  initiated :: bool
  is_done :: bool
  profile_created :: bool
  profile :: "TRuntimeProfileTree list"
  error_log :: "string list"
  stopwatch_running :: bool

text \<open>
  What the query does to the outside: calls into the local executor, remote
  procedure calls, notifications of the completion condition variable, file-system
  operations and the summary written into the query profile are appended to the
  trace of the query, in the order in which they happen.
\<close>

datatype HdfsOpType = DELETE | CREATE_DIR | RENAME | DELETE_THEN_CREATE

record HdfsOp =
  op :: HdfsOpType
  src :: string
  dst :: string

datatype event =
    ExecutorCancel
  | ExecutorOpen
  | ExecutorGetNext
  | StreamMgrCancel
  | CancelPlanFragmentRpc nat
  | CancelPlanFragmentRetry nat
  | NotifyAll
  | QuerySummary
  | InsertStatsInfo
  | Execute "HdfsOp list"
  | HdfsDelete string

datatype TStmtType = DML | OTHER_STMT

record TFinalizeParams =
  is_overwrite :: bool
  hdfs_base_dir :: string
  staging_dir :: "string option"

record Coordinator =
  query_id :: TUniqueId
  backend_exec_states :: "BackendExecState option list"
  query_status :: Status
  num_remaining_backends :: int
  has_called_wait :: bool
  returned_all_results :: bool
  has_executor :: bool
  needs_finalization :: bool
  finalize_params :: TFinalizeParams
  stmt_type :: TStmtType
  partition_row_counts :: "(string \<times> 64 word) list"
  files_to_move :: "(string \<times> string) list"
  partition_insert_stats :: "(string \<times> TInsertStats) list list"
  trace :: "event list"

definition emit :: "event list \<Rightarrow> Coordinator \<Rightarrow> Coordinator" where
  "emit evs c = c\<lparr>trace := trace c @ evs\<rparr>"

section \<open>Cancellation (coordinator.cc, lines 909-1001)\<close>

text \<open>
  What the network does when a backend is sent \<^verbatim>\<open>CancelPlanFragment\<close>: no client
  connection; an answer to the first call; a transport exception at the first call
  and then a failed reopen, an answer to the second call, or a second exception
  (with its text).
\<close>

datatype CancelRpcOutcome =
    ConnectionFailed
  | Replied TStatus
  | Threw_ReopenFailed Status
  | Threw_Replied TStatus
  | Threw_Threw string

definition note_reply :: "TStatus \<Rightarrow> Status \<Rightarrow> Status" where
  "note_reply res st =
     (if status_code res \<noteq> TStatusCode_OK then AddErrorMsg (join (error_msgs res) ''; '') st
      else st)"

definition cancel_failed_msg :: "TUniqueId \<Rightarrow> TUniqueId \<Rightarrow> string \<Rightarrow> string" where
  "cancel_failed_msg qid iid what =
     ''CancelPlanFragment rpc query_id='' @ PrintId qid '':'' @ '' instance_id=''
       @ PrintId iid '':'' @ '' failed: '' @ what"

text \<open>
  The body of the loop of \<^verbatim>\<open>CancelRemoteFragments\<close> for the exec state at index
  \<open>i\<close>: the new exec state and the calls made.
\<close>

definition cancel_exec_state ::
  "TUniqueId \<Rightarrow> CancelRpcOutcome \<Rightarrow> nat \<Rightarrow> BackendExecState \<Rightarrow> BackendExecState \<times> event list" where
  "cancel_exec_state qid outcome i es =
     (if \<not> ok (status es) then (es, [])
      else if \<not> initiated es then (es, [])
      else if is_done es then (es, [])
      else
        let es1 = es\<lparr>status := CANCELLED\<rparr> in
        (case outcome of
           ConnectionFailed \<Rightarrow> (es1, [])
         | Replied res \<Rightarrow>
             (es1\<lparr>status := note_reply res (status es1)\<rparr>, [CancelPlanFragmentRpc i])
         | Threw_ReopenFailed st \<Rightarrow>
             (es1\<lparr>status := AddError st (status es1)\<rparr>, [CancelPlanFragmentRpc i])
         | Threw_Replied res \<Rightarrow>
             (es1\<lparr>status := note_reply res (status es1)\<rparr>,
              [CancelPlanFragmentRpc i, CancelPlanFragmentRetry i])
         | Threw_Threw what \<Rightarrow>
             (es1\<lparr>status :=
                 AddErrorMsg (cancel_failed_msg qid (fragment_instance_id es1) what) (status es1)\<rparr>,
              [CancelPlanFragmentRpc i, CancelPlanFragmentRetry i])))"

fun cancel_loop ::
  "TUniqueId \<Rightarrow> (nat \<Rightarrow> CancelRpcOutcome) \<Rightarrow> nat \<Rightarrow> BackendExecState option list
     \<Rightarrow> BackendExecState option list \<times> event list" where
  "cancel_loop qid rpc i [] = ([], [])"
| "cancel_loop qid rpc i (None # rest) =
     (let (rest', evs) = cancel_loop qid rpc (Suc i) rest in (None # rest', evs))"
| "cancel_loop qid rpc i (Some es # rest) =
     (let (es', evs1) = cancel_exec_state qid (rpc i) i es;
          (rest', evs2) = cancel_loop qid rpc (Suc i) rest
      in (Some es' # rest', evs1 @ evs2))"

definition CancelRemoteFragments :: "(nat \<Rightarrow> CancelRpcOutcome) \<Rightarrow> Coordinator \<Rightarrow> Coordinator" where
  "CancelRemoteFragments rpc c =
     (let (states, evs) = cancel_loop (query_id c) rpc 0 (backend_exec_states c)
      in emit (evs @ [NotifyAll]) (c\<lparr>backend_exec_states := states\<rparr>))"

text \<open>
  \<^verbatim>\<open>ReportQuerySummary\<close> (lines 1192-1278) returns at once before \<^verbatim>\<open>Wait\<close> has been
  called; otherwise it reads the profile of every exec state, without a null check,
  and writes the summary into the profiles.
\<close>

definition ReportQuerySummary :: "Coordinator \<Rightarrow> Coordinator result" where
  "ReportQuerySummary c =
     (if \<not> has_called_wait c then Inr c
      else if None \<in> set (backend_exec_states c) then Inl NullDereference
      else Inr (emit [QuerySummary] c))"

definition CancelInternal :: "bool \<Rightarrow> (nat \<Rightarrow> CancelRpcOutcome) \<Rightarrow> Coordinator \<Rightarrow> Coordinator result" where
  "CancelInternal dchecks rpc c =
     bind_r (DCHECK dchecks (\<not> ok (query_status c))) (\<lambda>_.
       let c1 = (if has_executor c then emit [ExecutorCancel] c else c)
       in ReportQuerySummary (CancelRemoteFragments rpc c1))"

text \<open>\<^verbatim>\<open>Cancel\<close>; \<open>cause\<close> is \<open>None\<close> for the null pointer.\<close>

definition Cancel ::
  "bool \<Rightarrow> (nat \<Rightarrow> CancelRpcOutcome) \<Rightarrow> Status option \<Rightarrow> Coordinator \<Rightarrow> Coordinator result" where
  "Cancel dchecks rpc cause c =
     (if \<not> ok (query_status c) then Inr c
      else CancelInternal dchecks rpc
        (c\<lparr>query_status :=
            (case cause of
               None \<Rightarrow> CANCELLED
             | Some st \<Rightarrow> if \<not> ok st then st else CANCELLED)\<rparr>))"

text \<open>
  \<^verbatim>\<open>UpdateStatus\<close> (lines 462-487) returns the query status; the instance id is used
  for logging only.
\<close>

definition UpdateStatus ::
  "bool \<Rightarrow> (nat \<Rightarrow> CancelRpcOutcome) \<Rightarrow> Status \<Rightarrow> Coordinator \<Rightarrow> (Status \<times> Coordinator) result" where
  "UpdateStatus dchecks rpc st c =
     (if returned_all_results c \<and> IsCancelled st then Inr (query_status c, c)
      else if ok st then Inr (query_status c, c)
      else if \<not> ok (query_status c) then Inr (query_status c, c)
      else bind_r (CancelInternal dchecks rpc (c\<lparr>query_status := st\<rparr>))
             (\<lambda>c'. Inr (query_status c', c')))"


section \<open>Status reports (coordinator.cc, lines 1003-1123)\<close>

definition merge_row_counts ::
  "(string \<times> 64 word) list \<Rightarrow> (string \<times> 64 word) list \<Rightarrow> (string \<times> 64 word) list" where
  "merge_row_counts entries m = fold (\<lambda>e. smap_add (fst e) (snd e)) entries m"

definition merge_files ::
  "(string \<times> string) list \<Rightarrow> (string \<times> string) list \<Rightarrow> (string \<times> string) list" where
  "merge_files entries m = fold smap_insert entries m"

definition merge_insert_status :: "TInsertExecStatus \<Rightarrow> Coordinator \<Rightarrow> Coordinator" where
  "merge_insert_status ies c =
     c\<lparr>partition_row_counts := merge_row_counts (ies_num_appended_rows ies) (partition_row_counts c),
       files_to_move := merge_files (ies_files_to_move ies) (files_to_move c),
       partition_insert_stats :=
         (case ies_insert_stats ies of
            None \<Rightarrow> partition_insert_stats c
          | Some stats \<Rightarrow> partition_insert_stats c @ [stats])\<rparr>"

text \<open>The block under the lock of the exec state, lines 1014-1053.\<close>

definition update_exec_state :: "TReportExecStatusParams \<Rightarrow> BackendExecState \<Rightarrow> BackendExecState" where
  "update_exec_state params es =
     (let st = Status_of_TStatus (rep_status params);
          es1 = (if \<not> ok st then es\<lparr>status := st\<rparr> else es);
          es2 = es1\<lparr>is_done := rep_done params\<rparr>;
          es3 = (if ok (status es2) then es2\<lparr>profile := profile es2 @ [rep_profile params]\<rparr>
                 else es2);
          es4 = es3\<lparr>profile_created := True\<rparr>
      in (case rep_error_log params of
            None \<Rightarrow> es4
          | Some l \<Rightarrow> if l \<noteq> [] then es4\<lparr>error_log := error_log es4 @ l\<rparr> else es4))"

text \<open>
  Lines 1014-1072: the report \<open>params\<close> is applied to the exec state \<open>es\<close> at index
  \<open>n\<close>, and the write outputs of a final report are merged into the maps of the
  query.
\<close>

definition apply_report ::
  "TReportExecStatusParams \<Rightarrow> nat \<Rightarrow> BackendExecState \<Rightarrow> Coordinator \<Rightarrow> Coordinator" where
  "apply_report params n es c =
     (let c1 = c\<lparr>backend_exec_states :=
                   (backend_exec_states c)[n := Some (update_exec_state params es)]\<rparr>
      in (case rep_insert_exec_status params of
            None \<Rightarrow> c1
          | Some ies \<Rightarrow> if rep_done params then merge_insert_status ies c1 else c1))"

text \<open>
  Lines 1098-1120: the backend at index \<open>n\<close> has completed; its stopwatch is
  stopped and the number of remaining backends goes down by one.
\<close>

definition backend_completed :: "bool \<Rightarrow> nat \<Rightarrow> Coordinator \<Rightarrow> (Status \<times> Coordinator) result" where
  "backend_completed dchecks n c =
     bind_r (DCHECK dchecks (0 < num_remaining_backends c)) (\<lambda>_.
       let c3 = c\<lparr>backend_exec_states :=
                     (backend_exec_states c)
                       [n := map_option (\<lambda>es. es\<lparr>stopwatch_running := False\<rparr>)
                               (backend_exec_states c ! n)],
                   num_remaining_backends := num_remaining_backends c - 1\<rparr>
       in Inr (OK, if num_remaining_backends c3 = 0 then emit [NotifyAll] c3 else c3))"

text \<open>
  Line 1093: an error status aborts the query, except a cancellation that is
  reported after all results have been returned.
\<close>

definition aborts_query :: "Status \<Rightarrow> Coordinator \<Rightarrow> bool" where
  "aborts_query st c = (\<not> (returned_all_results c \<and> IsCancelled st) \<and> \<not> ok st)"

text \<open>
  \<^verbatim>\<open>UpdateFragmentExecStatus\<close>. The backend number of a report is a signed 32-bit
  integer that the source compares with the unsigned size of the vector: a negative
  number converts to a value above every size.
\<close>

definition UpdateFragmentExecStatus ::
  "bool \<Rightarrow> (nat \<Rightarrow> CancelRpcOutcome) \<Rightarrow> TReportExecStatusParams \<Rightarrow> Coordinator
     \<Rightarrow> (Status \<times> Coordinator) result" where
  "UpdateFragmentExecStatus dchecks rpc params c =
     (if rep_backend_num params < 0
         \<or> rep_backend_num params \<ge> int (length (backend_exec_states c))
      then Inr (Error TStatusCode_INTERNAL_ERROR [''unknown backend number''], c)
      else
        let n = nat (rep_backend_num params) in
        (case backend_exec_states c ! n of
           None \<Rightarrow> Inl NullDereference
         | Some es \<Rightarrow>
             let st = Status_of_TStatus (rep_status params);
                 c2 = apply_report params n es c
             in
               if aborts_query st c2
               then bind_r (UpdateStatus dchecks rpc st c2) (\<lambda>r. Inr (OK, snd r))
               else if rep_done params then backend_completed dchecks n c2
               else Inr (OK, c2)))"

section \<open>Waiting for the backends (coordinator.cc, lines 626-640)\<close>

text \<open>
  While a thread waits on the completion condition variable, other threads run
  \<^verbatim>\<open>UpdateFragmentExecStatus\<close> and \<^verbatim>\<open>Cancel\<close>. The waiting loop takes the sequence of
  these calls, in the order in which they get the lock, and looks at its condition
  again after each of them; when the sequence is used up while the condition still
  holds, the thread waits forever. The calls that were not consumed are returned.
\<close>

datatype env_op =
    ReportExecStatus TReportExecStatusParams "nat \<Rightarrow> CancelRpcOutcome"
  | CancelQuery "Status option" "nat \<Rightarrow> CancelRpcOutcome"

fun run_env_op :: "bool \<Rightarrow> env_op \<Rightarrow> Coordinator \<Rightarrow> Coordinator result" where
  "run_env_op dchecks (ReportExecStatus params rpc) c =
     bind_r (UpdateFragmentExecStatus dchecks rpc params c) (\<lambda>r. Inr (snd r))"
| "run_env_op dchecks (CancelQuery cause rpc) c = Cancel dchecks rpc cause c"

fun WaitForAllBackends ::
  "bool \<Rightarrow> env_op list \<Rightarrow> Coordinator \<Rightarrow> (Status \<times> Coordinator \<times> env_op list) result" where
  "WaitForAllBackends dchecks [] c =
     (if 0 < num_remaining_backends c \<and> ok (query_status c) then Inl WaitsForever
      else Inr (query_status c, c, []))"
| "WaitForAllBackends dchecks (e # es) c =
     (if 0 < num_remaining_backends c \<and> ok (query_status c)
      then bind_r (run_env_op dchecks e c) (\<lambda>c'. WaitForAllBackends dchecks es c')
      else Inr (query_status c, c, e # es))"


section \<open>Finalization (coordinator.cc, lines 489-624)\<close>

text \<open>
  The file system is outside the source file. Its answers are parameters: the
  listing of a directory (\<open>None\<close> for a null result), the result of \<^verbatim>\<open>hdfsExists\<close>,
  the text of \<^verbatim>\<open>GetHdfsErrorMsg\<close>, \<^verbatim>\<open>IsHiddenFile\<close>, the last component of a path
  (\<^verbatim>\<open>boost::filesystem::path::filename\<close>), and the errors that the execution of
  each of the three operation sets records, in the order of \<^verbatim>\<open>errors()\<close>.
  Modelled from the spec: \<^verbatim>\<open>HdfsOperationSet\<close> (util/hdfs-bulk-ops.h) is not part of
  the source file; \<^verbatim>\<open>Execute\<close> returns false when it recorded an error.
\<close>

datatype tObjectKind = kObjectKindFile | kObjectKindDirectory

record hdfsFileInfo =
  mName :: string
  mKind :: tObjectKind

record Hdfs =
  hdfsListDirectory :: "string \<Rightarrow> hdfsFileInfo list option"
  hdfsExists :: "string \<Rightarrow> int"
  GetHdfsErrorMsg :: "string \<Rightarrow> string \<Rightarrow> string"
  IsHiddenFile :: "string \<Rightarrow> bool"
  filename :: "string \<Rightarrow> string"
  partition_create_errors :: "HdfsOp list \<Rightarrow> (HdfsOp \<times> string) list"
  move_errors :: "HdfsOp list \<Rightarrow> (HdfsOp \<times> string) list"
  dir_deletion_errors :: "HdfsOp list \<Rightarrow> (HdfsOp \<times> string) list"

definition Add :: "HdfsOpType \<Rightarrow> string \<Rightarrow> HdfsOp" where
  "Add t path = \<lparr>op = t, src = path, dst = []\<rparr>"

text \<open>The files of a listing that the root branch schedules for deletion.\<close>

definition root_deletions :: "Hdfs \<Rightarrow> hdfsFileInfo list \<Rightarrow> HdfsOp list" where
  "root_deletions fs existing_files =
     map (\<lambda>f. Add DELETE (mName f))
       (filter (\<lambda>f. mKind f = kObjectKindFile \<and> \<not> IsHiddenFile fs (filename fs (mName f)))
          existing_files)"

text \<open>
  The first loop of \<^verbatim>\<open>FinalizeSuccessfulInsert\<close>, over the entries of
  \<^verbatim>\<open>partition_row_counts_\<close> that are left; \<open>n\<close> is the size of the whole map and
  \<open>ops\<close> the operations added so far. The result is the status of an early return
  or the operation set.
\<close>

fun partition_create_ops ::
  "bool \<Rightarrow> Hdfs \<Rightarrow> TFinalizeParams \<Rightarrow> nat \<Rightarrow> (string \<times> 64 word) list \<Rightarrow> HdfsOp list
     \<Rightarrow> (Status + HdfsOp list) result" where
  "partition_create_ops dchecks fs fp n [] ops = Inr (Inr ops)"
| "partition_create_ops dchecks fs fp n (part # rest) ops =
     (let part_path = hdfs_base_dir fp @ ''/'' @ fst part in
      if is_overwrite fp then
        if fst part = [] then
          bind_r (DCHECK dchecks (n = 1)) (\<lambda>_.
            case hdfsListDirectory fs part_path of
              None \<Rightarrow>
                Inr (Inl (Status_msg (GetHdfsErrorMsg fs ''Could not list directory: '' part_path)))
            | Some existing_files \<Rightarrow>
                partition_create_ops dchecks fs fp n rest (ops @ root_deletions fs existing_files))
        else if hdfsExists fs part_path \<noteq> - 1
        then partition_create_ops dchecks fs fp n rest (ops @ [Add DELETE_THEN_CREATE part_path])
        else partition_create_ops dchecks fs fp n rest (ops @ [Add CREATE_DIR part_path])
      else partition_create_ops dchecks fs fp n rest (ops @ [Add CREATE_DIR part_path]))"

text \<open>
  Lines 545-556: the first recorded error whose operation is not \<^verbatim>\<open>CREATE_DIR\<close>
  ends the finalization.
\<close>

definition partition_create_failure :: "(HdfsOp \<times> string) list \<Rightarrow> Status option" where
  "partition_create_failure errors =
     (case find (\<lambda>err. op (fst err) \<noteq> CREATE_DIR) errors of
        None \<Rightarrow> None
      | Some err \<Rightarrow>
          Some (Status_msg (''Error(s) deleting partition directories. First error (of ''
                 @ show_nat (length errors) @ '') was: '' @ snd err)))"

definition move_ops_of :: "(string \<times> string) list \<Rightarrow> HdfsOp list" where
  "move_ops_of files =
     map (\<lambda>move. \<lparr>op = RENAME, src = fst move, dst = snd move\<rparr>)
       (filter (\<lambda>move. snd move \<noteq> []) files)"

definition dir_deletion_ops_of :: "(string \<times> string) list \<Rightarrow> HdfsOp list" where
  "dir_deletion_ops_of files =
     map (\<lambda>move. Add DELETE (fst move)) (filter (\<lambda>move. snd move = []) files)"

definition first_error_msg :: "string \<Rightarrow> (HdfsOp \<times> string) list \<Rightarrow> Status" where
  "first_error_msg what errors =
     Status_msg (what @ '' First error (of '' @ show_nat (length errors) @ '') was: ''
       @ snd (hd errors))"

definition FinalizeSuccessfulInsert :: "bool \<Rightarrow> Hdfs \<Rightarrow> Coordinator \<Rightarrow> (Status \<times> Coordinator) result" where
  "FinalizeSuccessfulInsert dchecks fs c =
     bind_r (partition_create_ops dchecks fs (finalize_params c)
               (length (partition_row_counts c)) (partition_row_counts c) [])
       (\<lambda>r. case r of
          Inl st \<Rightarrow> Inr (st, c)
        | Inr create_ops \<Rightarrow>
            let c1 = emit [Execute create_ops] c in
            (case partition_create_failure (partition_create_errors fs create_ops) of
               Some st \<Rightarrow> Inr (st, c1)
             | None \<Rightarrow>
                 let move_ops = move_ops_of (files_to_move c1);
                     dir_deletion_ops = dir_deletion_ops_of (files_to_move c1);
                     c2 = emit [Execute move_ops] c1
                 in
                   if move_errors fs move_ops \<noteq> []
                   then Inr (first_error_msg ''Error(s) moving partition files.''
                               (move_errors fs move_ops), c2)
                   else
                     let c3 = emit [Execute dir_deletion_ops] c2 in
                     if dir_deletion_errors fs dir_deletion_ops \<noteq> []
                     then Inr (first_error_msg ''Error(s) deleting staging directories.''
                                 (dir_deletion_errors fs dir_deletion_ops), c3)
                     else Inr (OK, c3)))"

definition FinalizeQuery :: "bool \<Rightarrow> Hdfs \<Rightarrow> Coordinator \<Rightarrow> (Status \<times> Coordinator) result" where
  "FinalizeQuery dchecks fs c =
     bind_r (DCHECK dchecks (has_called_wait c)) (\<lambda>_.
     bind_r (DCHECK dchecks (needs_finalization c)) (\<lambda>_.
     bind_r (if ok (query_status c) then FinalizeSuccessfulInsert dchecks fs c
             else Inr (query_status c, c)) (\<lambda>r.
     bind_r (DCHECK dchecks (staging_dir (finalize_params c) \<noteq> None)) (\<lambda>_.
       Inr (fst r,
            emit [HdfsDelete ((case staging_dir (finalize_params c) of None \<Rightarrow> [] | Some d \<Rightarrow> d)
                    @ ''/'' @ PrintId (query_id c) ''_'' @ ''/'')] (snd r))))))"

section \<open>Wait and GetNext (coordinator.cc, lines 642-746)\<close>

text \<open>
  The local fragment executor is outside the source file. What it answers during one
  call of \<^verbatim>\<open>Wait\<close> or \<^verbatim>\<open>GetNext\<close> is a parameter: the status of \<^verbatim>\<open>Open\<close>, the write
  outputs of its runtime state, the status and the batch of \<^verbatim>\<open>GetNext\<close> (\<open>None\<close> is
  the null batch) and \<^verbatim>\<open>ReachedLimit\<close>. The runtime state of an executor exists.
\<close>

type_synonym RowBatch = "string list"

record Executor =
  Open :: Status
  hdfs_files_to_move :: "(string \<times> string) list"
  num_appended_rows :: "(string \<times> 64 word) list"
  insert_stats :: "(string \<times> TInsertStats) list"
  GetNext_status :: Status
  GetNext_batch :: "RowBatch option"
  ReachedLimit :: bool

text \<open>
  The part of \<^verbatim>\<open>Wait\<close> before the finalization: the status of an early return, if
  any, and the new state.
\<close>

definition Wait_open ::
  "bool \<Rightarrow> Executor \<Rightarrow> (nat \<Rightarrow> CancelRpcOutcome) \<Rightarrow> env_op list \<Rightarrow> Coordinator
     \<Rightarrow> (Status option \<times> Coordinator) result" where
  "Wait_open dchecks ex rpc others c =
     (if has_executor c then
        bind_r (UpdateStatus dchecks rpc (Open ex) (emit [ExecutorOpen] c)) (\<lambda>r.
          if ok (fst r) then
            bind_r (DCHECK dchecks (length (files_to_move (snd r)) = 0)) (\<lambda>_.
            bind_r (DCHECK dchecks (length (partition_row_counts (snd r)) = 0)) (\<lambda>_.
              Inr (None, (snd r)
                \<lparr>files_to_move := hdfs_files_to_move ex,
                 partition_row_counts := num_appended_rows ex,
                 partition_insert_stats := [insert_stats ex]\<rparr>)))
          else Inr (None, snd r))
      else
        bind_r (WaitForAllBackends dchecks others c) (\<lambda>r.
          if \<not> needs_finalization (fst (snd r)) \<and> \<not> ok (fst r)
          then Inr (Some (fst r), fst (snd r))
          else Inr (None, fst (snd r))))"

definition Wait ::
  "bool \<Rightarrow> Executor \<Rightarrow> (nat \<Rightarrow> CancelRpcOutcome) \<Rightarrow> env_op list \<Rightarrow> Hdfs \<Rightarrow> Coordinator
     \<Rightarrow> (Status \<times> Coordinator) result" where
  "Wait dchecks ex rpc others fs c =
     (if has_called_wait c then Inr (OK, c)
      else
        bind_r (Wait_open dchecks ex rpc others (c\<lparr>has_called_wait := True\<rparr>)) (\<lambda>r.
          case fst r of
            Some st \<Rightarrow> Inr (st, snd r)
          | None \<Rightarrow>
              bind_r (if needs_finalization (snd r) then FinalizeQuery dchecks fs (snd r)
                      else Inr (OK, snd r)) (\<lambda>f.
                if \<not> ok (fst f) then Inr f
                else if stmt_type (snd f) = DML
                then bind_r (ReportQuerySummary (emit [InsertStatsInfo] (snd f)))
                       (\<lambda>c'. Inr (OK, c'))
                else Inr (OK, snd f))))"


section \<open>Sequences of calls and derived quantities\<close>

fun run_env_ops :: "bool \<Rightarrow> env_op list \<Rightarrow> Coordinator \<Rightarrow> Coordinator result" where
  "run_env_ops dchecks [] c = Inr c"
| "run_env_ops dchecks (e # es) c = bind_r (run_env_op dchecks e c) (run_env_ops dchecks es)"

text \<open>The number of exec states whose \<^verbatim>\<open>done\<close> is false.\<close>

definition still_running :: "BackendExecState option \<Rightarrow> bool" where
  "still_running s = (case s of None \<Rightarrow> False | Some es \<Rightarrow> \<not> is_done es)"

definition num_not_done :: "Coordinator \<Rightarrow> nat" where
  "num_not_done c = length (filter still_running (backend_exec_states c))"

text \<open>The two quantities after a call, \<open>None\<close> when the call did not return.\<close>

definition remaining_and_not_done :: "(Status \<times> Coordinator) result \<Rightarrow> (int \<times> nat) option" where
  "remaining_and_not_done r =
     (case r of Inl e \<Rightarrow> None
      | Inr x \<Rightarrow> Some (num_remaining_backends (snd x), num_not_done (snd x)))"


text \<open>
  The status of an exec state has not gone back to OK between two states of the
  query: no exec state was created or destroyed, and an exec state whose status is
  OK afterwards had the status OK before.
\<close>

definition never_back_to_OK :: "BackendExecState option \<Rightarrow> BackendExecState option \<Rightarrow> bool" where
  "never_back_to_OK s s' =
     (case s of
        None \<Rightarrow> s' = None
      | Some es \<Rightarrow> (case s' of None \<Rightarrow> False | Some es' \<Rightarrow> ok (status es') \<longrightarrow> ok (status es)))"

definition status_monotonic :: "Coordinator \<Rightarrow> Coordinator \<Rightarrow> bool" where
  "status_monotonic c c' =
     list_all2 never_back_to_OK (backend_exec_states c) (backend_exec_states c')"

text \<open>
  The exec states that \<^verbatim>\<open>CancelRemoteFragments\<close> does not skip: initiated, not done,
  status OK.
\<close>

definition cancellable :: "Coordinator \<Rightarrow> nat \<Rightarrow> bool" where
  "cancellable c i =
     (i < length (backend_exec_states c)
      \<and> (case backend_exec_states c ! i of
            None \<Rightarrow> False
          | Some es \<Rightarrow> ok (status es) \<and> initiated es \<and> \<not> is_done es))"

definition cancel_calls :: "(Status option \<times> (nat \<Rightarrow> CancelRpcOutcome)) list \<Rightarrow> env_op list" where
  "cancel_calls calls = map (\<lambda>x. CancelQuery (fst x) (snd x)) calls"

text \<open>
  The reports among a sequence of calls, and the insert statuses that
  \<^verbatim>\<open>UpdateFragmentExecStatus\<close> merges: those of the reports for a known backend that
  have \<^verbatim>\<open>done\<close> set and carry \<^verbatim>\<open>insert_exec_status\<close>.
\<close>

fun reports_of :: "env_op list \<Rightarrow> TReportExecStatusParams list" where
  "reports_of [] = []"
| "reports_of (ReportExecStatus params rpc # es) = params # reports_of es"
| "reports_of (CancelQuery cause rpc # es) = reports_of es"

definition merged_status :: "Coordinator \<Rightarrow> TReportExecStatusParams \<Rightarrow> TInsertExecStatus option" where
  "merged_status c params =
     (if 0 \<le> rep_backend_num params
         \<and> rep_backend_num params < int (length (backend_exec_states c))
         \<and> rep_done params
      then rep_insert_exec_status params else None)"

definition merged_statuses :: "Coordinator \<Rightarrow> env_op list \<Rightarrow> TInsertExecStatus list" where
  "merged_statuses c ops = List.map_filter (merged_status c) (reports_of ops)"

text \<open>The count of a partition in a map (0 when absent) and in a list of entries.\<close>

definition row_count :: "(string \<times> 64 word) list \<Rightarrow> string \<Rightarrow> 64 word" where
  "row_count m k = (case map_of m k of None \<Rightarrow> 0 | Some v \<Rightarrow> v)"

definition reported_rows :: "string \<Rightarrow> TInsertExecStatus \<Rightarrow> 64 word" where
  "reported_rows k ies =
     sum_list (map snd (filter (\<lambda>e. fst e = k) (ies_num_appended_rows ies)))"

text \<open>No key has two different values among the entries.\<close>

definition consistent :: "(string \<times> string) list \<Rightarrow> bool" where
  "consistent entries = (\<forall>e \<in> set entries. \<forall>e' \<in> set entries. fst e = fst e' \<longrightarrow> snd e = snd e')"

text \<open>
  What the first loop of the finalization may add to the operation set: the deletion
  of a file that the listing of the table directory gives as a visible regular
  file, the wipe and re-creation of a partition directory below the table
  directory, the creation of a directory.
\<close>

definition root_or_partition_op :: "Hdfs \<Rightarrow> TFinalizeParams \<Rightarrow> HdfsOp \<Rightarrow> bool" where
  "root_or_partition_op fs fp o' =
     (case op o' of
        DELETE \<Rightarrow> is_overwrite fp
          \<and> (case hdfsListDirectory fs (hdfs_base_dir fp @ ''/'') of
                None \<Rightarrow> False
              | Some files \<Rightarrow> o' \<in> set (root_deletions fs files))
      | DELETE_THEN_CREATE \<Rightarrow> is_overwrite fp
          \<and> length (hdfs_base_dir fp @ ''/'') < length (src o')
          \<and> take (length (hdfs_base_dir fp @ ''/'')) (src o') = hdfs_base_dir fp @ ''/''
      | CREATE_DIR \<Rightarrow> True
      | RENAME \<Rightarrow> False)"

text \<open>
  A sequence of \<^verbatim>\<open>Wait\<close> calls, each with what the executor, the network, the other
  threads and the file system do during it: the statuses returned and the last
  state.
\<close>

fun Wait_calls ::
  "bool \<Rightarrow> (Executor \<times> (nat \<Rightarrow> CancelRpcOutcome) \<times> env_op list \<times> Hdfs) list \<Rightarrow> Coordinator
     \<Rightarrow> (Status list \<times> Coordinator) result" where
  "Wait_calls dchecks [] c = Inr ([], c)"
| "Wait_calls dchecks (x # xs) c =
     bind_r (Wait dchecks (fst x) (fst (snd x)) (fst (snd (snd x))) (snd (snd (snd x))) c) (\<lambda>r.
     bind_r (Wait_calls dchecks xs (snd r)) (\<lambda>rs. Inr (fst r # fst rs, snd rs)))"

definition statuses_of :: "(Status list \<times> Coordinator) result \<Rightarrow> Status list option" where
  "statuses_of r = (case r of Inl e \<Rightarrow> None | Inr x \<Rightarrow> Some (fst x))"


text \<open>How often the local executor has been opened.\<close>

definition opens :: "Coordinator \<Rightarrow> nat" where
  "opens c = count_list (trace c) ExecutorOpen"

text \<open>Which backends have not reported \<^verbatim>\<open>done\<close>.\<close>

definition running :: "Coordinator \<Rightarrow> bool list" where
  "running c = map still_running (backend_exec_states c)"

text \<open>
  The count of the remaining backends agrees with the exec states while the query
  status is OK.
\<close>

definition counts_agree :: "Coordinator \<Rightarrow> bool" where
  "counts_agree c = (ok (query_status c) \<longrightarrow> num_remaining_backends c = int (num_not_done c))"

section \<open>Example values\<close>

text \<open>
  A query with a local fragment and two running backends, a backend that answers
  every cancel call with OK, reports, and a set of Thrift tables.
\<close>

definition es_running :: "nat \<Rightarrow> BackendExecState" where
  "es_running i =
     \<lparr>fragment_instance_id = \<lparr>hi = 1, lo = of_nat i\<rparr>, fragment_idx = 1, status = OK,
      initiated = True, is_done = False, profile_created = False, profile = [],
      error_log = [], stopwatch_running = True\<rparr>"

definition coord2 :: Coordinator where
  "coord2 =
     \<lparr>query_id = \<lparr>hi = 1, lo = 0\<rparr>,
      backend_exec_states = [Some (es_running 0), Some (es_running 1)],
      query_status = OK, num_remaining_backends = 2, has_called_wait = True,
      returned_all_results = False, has_executor = True, needs_finalization = False,
      finalize_params = \<lparr>is_overwrite = False, hdfs_base_dir = [], staging_dir = None\<rparr>,
      stmt_type = OTHER_STMT, partition_row_counts = [], files_to_move = [],
      partition_insert_stats = [], trace = []\<rparr>"

definition rpc_ok :: "nat \<Rightarrow> CancelRpcOutcome" where
  "rpc_ok i = Replied \<lparr>status_code = TStatusCode_OK, error_msgs = []\<rparr>"

definition parse_error :: Status where
  "parse_error = Error (TStatusCode_OTHER 1) [''parse error'']"

definition report :: "int \<Rightarrow> TStatus \<Rightarrow> bool \<Rightarrow> TInsertExecStatus option \<Rightarrow> TReportExecStatusParams" where
  "report n st d ies =
     \<lparr>rep_backend_num = n, rep_status = st, rep_done = d,
      rep_profile = TRuntimeProfileTree ''Instance'' [] [], rep_error_log = None,
      rep_insert_exec_status = ies\<rparr>"

definition TStatus_OK :: TStatus where
  "TStatus_OK = \<lparr>status_code = TStatusCode_OK, error_msgs = []\<rparr>"

definition TStatus_parse_error :: TStatus where
  "TStatus_parse_error = \<lparr>status_code = TStatusCode_OTHER 1, error_msgs = [''parse error'']\<rparr>"

definition debug_env :: DebugEnv where
  "debug_env =
     \<lparr>phase_names = [(0, ''PREPARE''), (1, ''OPEN''), (2, ''GETNEXT''), (3, ''CLOSE''),
                      (4, ''INVALID'')],
      action_names = [(0, ''WAIT''), (1, ''FAIL'')],
      PHASE_INVALID = 4, PHASE_CLOSE = 3, ACTION_WAIT = 0,
      atoi = (\<lambda>s. if s = ''2'' then 2 else if s = ''7'' then 7 else 0)\<rparr>"

definition insert_status :: "(string \<times> 64 word) list \<Rightarrow> (string \<times> string) list \<Rightarrow> TInsertExecStatus" where
  "insert_status rows files =
     \<lparr>ies_files_to_move = files, ies_num_appended_rows = rows, ies_insert_stats = None\<rparr>"

text \<open>A parallel insert: no local fragment, two backends that write.\<close>

definition coord_insert :: Coordinator where
  "coord_insert =
     coord2\<lparr>has_called_wait := False, has_executor := False, needs_finalization := True,
            finalize_params :=
              \<lparr>is_overwrite = True, hdfs_base_dir = ''/t'', staging_dir = Some ''/stage''\<rparr>,
            stmt_type := DML\<rparr>"

definition insert_report0 :: TReportExecStatusParams where
  "insert_report0 =
     report 0 TStatus_OK True
       (Some (insert_status [(''p=1'', 3)] [(''/stage/a'', ''/t/p=1/a''), (''/stage/dir'', [])]))"

definition insert_report1 :: TReportExecStatusParams where
  "insert_report1 =
     report 1 TStatus_OK True
       (Some (insert_status [(''p=2'', 5), (''p=1'', 4)]
                [(''/stage/b'', ''/t/p=2/b''), (''/stage/dir'', [])]))"

text \<open>
  A file system whose table directory \<open>/t\<close> holds a data file, a hidden file and a
  directory, in which the partition \<open>p=1\<close> exists, and whose execution of the
  partition operations records the given errors.
\<close>

definition hdfs_example :: "(HdfsOp \<times> string) list \<Rightarrow> Hdfs" where
  "hdfs_example errs =
     \<lparr>hdfsListDirectory =
        (\<lambda>p. if p = ''/t/''
              then Some [\<lparr>mName = ''/t/data0'', mKind = kObjectKindFile\<rparr>,
                         \<lparr>mName = ''/t/.hidden'', mKind = kObjectKindFile\<rparr>,
                         \<lparr>mName = ''/t/stage'', mKind = kObjectKindDirectory\<rparr>]
              else None),
      hdfsExists = (\<lambda>p. if p = ''/t/p=1'' then 0 else - 1),
      GetHdfsErrorMsg = (\<lambda>prefix file. prefix @ file),
      IsHiddenFile = (\<lambda>n. n \<noteq> [] \<and> (hd n = CHR ''.'' \<or> hd n = CHR ''_'')),
      filename = (\<lambda>p. rev (takeWhile (\<lambda>c. c \<noteq> CHR ''/'') (rev p))),
      partition_create_errors = (\<lambda>ops. errs),
      move_errors = (\<lambda>ops. []),
      dir_deletion_errors = (\<lambda>ops. [])\<rparr>"

definition overwrite_params :: TFinalizeParams where
  "overwrite_params = \<lparr>is_overwrite = True, hdfs_base_dir = ''/t'', staging_dir = Some ''/stage''\<rparr>"

definition coord_finalize :: Coordinator where
  "coord_finalize =
     coord_insert\<lparr>partition_row_counts := [(''p=1'', 7), (''p=2'', 5)],
                  files_to_move := [(''/stage/a'', ''/t/p=1/a''), (''/stage/dir'', [])]\<rparr>"

definition executor_example :: Executor where
  "executor_example =
     \<lparr>Open = OK, hdfs_files_to_move = [], num_appended_rows = [], insert_stats = [],
      GetNext_status = OK, GetNext_batch = None, ReachedLimit = False\<rparr>"

text \<open>A query without a local fragment, before \<^verbatim>\<open>Wait\<close>.\<close>

definition coord_remote :: Coordinator where
  "coord_remote = coord2\<lparr>has_called_wait := False, has_executor := False\<rparr>"

section \<open>Auxiliary facts about the operations\<close>


lemma bind_r_simps [simp]:
  "bind_r (Inl e) f = Inl e" "bind_r (Inr x) f = f x"
  by (simp_all add: bind_r_def)

lemma bind_r_Inr_iff: "bind_r m f = Inr y \<longleftrightarrow> (\<exists>x. m = Inr x \<and> f x = Inr y)"
  by (cases m) simp_all

lemma DCHECK_Inr_iff: "DCHECK d b = Inr u \<longleftrightarrow> (d \<longrightarrow> b)"
  by (auto simp: DCHECK_def)

lemma emit_fields [simp]:
  "query_id (emit evs c) = query_id c"
  "backend_exec_states (emit evs c) = backend_exec_states c"
  "query_status (emit evs c) = query_status c"
  "num_remaining_backends (emit evs c) = num_remaining_backends c"
  "has_called_wait (emit evs c) = has_called_wait c"
  "returned_all_results (emit evs c) = returned_all_results c"
  "has_executor (emit evs c) = has_executor c"
  "needs_finalization (emit evs c) = needs_finalization c"
  "finalize_params (emit evs c) = finalize_params c"
  "stmt_type (emit evs c) = stmt_type c"
  "partition_row_counts (emit evs c) = partition_row_counts c"
  "files_to_move (emit evs c) = files_to_move c"
  "partition_insert_stats (emit evs c) = partition_insert_stats c"
  "trace (emit evs c) = trace c @ evs"
  by (simp_all add: emit_def)

lemma CancelRemoteFragments_fields [simp]:
  "query_id (CancelRemoteFragments rpc c) = query_id c"
  "query_status (CancelRemoteFragments rpc c) = query_status c"
  "num_remaining_backends (CancelRemoteFragments rpc c) = num_remaining_backends c"
  "has_called_wait (CancelRemoteFragments rpc c) = has_called_wait c"
  "returned_all_results (CancelRemoteFragments rpc c) = returned_all_results c"
  "has_executor (CancelRemoteFragments rpc c) = has_executor c"
  "needs_finalization (CancelRemoteFragments rpc c) = needs_finalization c"
  "finalize_params (CancelRemoteFragments rpc c) = finalize_params c"
  "stmt_type (CancelRemoteFragments rpc c) = stmt_type c"
  "partition_row_counts (CancelRemoteFragments rpc c) = partition_row_counts c"
  "files_to_move (CancelRemoteFragments rpc c) = files_to_move c"
  "partition_insert_stats (CancelRemoteFragments rpc c) = partition_insert_stats c"
  "backend_exec_states (CancelRemoteFragments rpc c) =
     fst (cancel_loop (query_id c) rpc 0 (backend_exec_states c))"
  "trace (CancelRemoteFragments rpc c) =
     trace c @ snd (cancel_loop (query_id c) rpc 0 (backend_exec_states c)) @ [NotifyAll]"
  by (simp_all add: CancelRemoteFragments_def split: prod.splits)

lemma ReportQuerySummary_Inr:
  "ReportQuerySummary c = Inr c' \<Longrightarrow> \<exists>evs. c' = emit evs c \<and> set evs \<subseteq> {QuerySummary}"
  unfolding ReportQuerySummary_def
  by (auto split: if_splits intro: exI[of _ "[]"] simp: emit_def)

lemma CancelInternal_Inr:
  "CancelInternal d rpc c = Inr c' \<Longrightarrow>
     \<exists>evs. c' = emit evs (CancelRemoteFragments rpc (if has_executor c then emit [ExecutorCancel] c else c))
          \<and> set evs \<subseteq> {QuerySummary}"
  unfolding CancelInternal_def
  by (auto simp: bind_r_Inr_iff Let_def dest: ReportQuerySummary_Inr)

lemma CancelInternal_query_status:
  "CancelInternal d rpc c = Inr c' \<Longrightarrow> query_status c' = query_status c"
  by (auto dest!: CancelInternal_Inr)

lemma merge_insert_status_fields [simp]:
  "query_id (merge_insert_status ies c) = query_id c"
  "backend_exec_states (merge_insert_status ies c) = backend_exec_states c"
  "query_status (merge_insert_status ies c) = query_status c"
  "num_remaining_backends (merge_insert_status ies c) = num_remaining_backends c"
  "has_called_wait (merge_insert_status ies c) = has_called_wait c"
  "returned_all_results (merge_insert_status ies c) = returned_all_results c"
  "has_executor (merge_insert_status ies c) = has_executor c"
  "needs_finalization (merge_insert_status ies c) = needs_finalization c"
  "finalize_params (merge_insert_status ies c) = finalize_params c"
  "stmt_type (merge_insert_status ies c) = stmt_type c"
  "trace (merge_insert_status ies c) = trace c"
  by (simp_all add: merge_insert_status_def)

lemma apply_report_fields [simp]:
  "query_id (apply_report p n es c) = query_id c"
  "query_status (apply_report p n es c) = query_status c"
  "num_remaining_backends (apply_report p n es c) = num_remaining_backends c"
  "has_called_wait (apply_report p n es c) = has_called_wait c"
  "returned_all_results (apply_report p n es c) = returned_all_results c"
  "has_executor (apply_report p n es c) = has_executor c"
  "needs_finalization (apply_report p n es c) = needs_finalization c"
  "finalize_params (apply_report p n es c) = finalize_params c"
  "stmt_type (apply_report p n es c) = stmt_type c"
  "trace (apply_report p n es c) = trace c"
  "backend_exec_states (apply_report p n es c) =
     (backend_exec_states c)[n := Some (update_exec_state p es)]"
  by (simp_all add: apply_report_def Let_def split: option.splits)

lemma backend_completed_Inr:
  assumes "backend_completed d n c = Inr (r, c')"
  shows "r = OK" "query_status c' = query_status c"
    "num_remaining_backends c' = num_remaining_backends c - 1"
    "d \<longrightarrow> 0 < num_remaining_backends c"
    "backend_exec_states c' = (backend_exec_states c)
       [n := map_option (\<lambda>es. es\<lparr>stopwatch_running := False\<rparr>) (backend_exec_states c ! n)]"
    "returned_all_results c' = returned_all_results c"
    "has_called_wait c' = has_called_wait c"
    "has_executor c' = has_executor c"
    "partition_row_counts c' = partition_row_counts c"
    "files_to_move c' = files_to_move c"
    "query_id c' = query_id c"
  using assms unfolding backend_completed_def
  by (auto simp: bind_r_Inr_iff DCHECK_Inr_iff Let_def split: if_splits)

lemma UpdateStatus_Inr:
  assumes "UpdateStatus d rpc st c = Inr (r, c')"
  shows "r = query_status c'"
    and "(c' = c \<and> (ok (query_status c) \<longrightarrow> ok st \<or> (returned_all_results c \<and> IsCancelled st)))
       \<or> (ok (query_status c) \<and> \<not> ok st \<and> \<not> (returned_all_results c \<and> IsCancelled st)
           \<and> CancelInternal d rpc (c\<lparr>query_status := st\<rparr>) = Inr c')"
  using assms unfolding UpdateStatus_def
  by (auto simp: bind_r_Inr_iff split: if_splits)

lemma UpdateStatus_query_status:
  assumes "UpdateStatus d rpc st c = Inr (r, c')"
  shows "query_status c' =
     (if ok (query_status c) \<and> \<not> ok st \<and> \<not> (returned_all_results c \<and> IsCancelled st)
      then st else query_status c)"
  using UpdateStatus_Inr(2)[OF assms]
  by (auto dest: CancelInternal_query_status)

lemma UpdateStatus_num_remaining:
  assumes "UpdateStatus d rpc st c = Inr (r, c')"
  shows "num_remaining_backends c' = num_remaining_backends c"
  using UpdateStatus_Inr(2)[OF assms]
  by (auto dest!: CancelInternal_Inr)

lemma UpdateFragmentExecStatus_query_status:
  assumes "UpdateFragmentExecStatus d rpc p c = Inr (r, c')"
  shows "query_status c' =
     (if ok (query_status c) \<and> 0 \<le> rep_backend_num p
          \<and> rep_backend_num p < int (length (backend_exec_states c))
          \<and> aborts_query (Status_of_TStatus (rep_status p)) c
      then Status_of_TStatus (rep_status p) else query_status c)"
  using assms unfolding UpdateFragmentExecStatus_def
  by (auto simp: bind_r_Inr_iff Let_def aborts_query_def
      split: if_splits option.splits
      dest: UpdateStatus_query_status backend_completed_Inr(2))

lemma Cancel_Inr:
  assumes "Cancel d rpc cause c = Inr c'"
  shows "(\<not> ok (query_status c) \<and> c' = c)
       \<or> (ok (query_status c)
           \<and> CancelInternal d rpc (c\<lparr>query_status :=
                (case cause of None \<Rightarrow> CANCELLED | Some st \<Rightarrow> if \<not> ok st then st else CANCELLED)\<rparr>) = Inr c')"
  using assms unfolding Cancel_def by (auto split: if_splits)

lemma not_ok_CANCELLED [simp]: "\<not> ok CANCELLED" "IsCancelled CANCELLED"
  by (simp_all add: CANCELLED_def)

lemma Cancel_query_status:
  assumes "Cancel d rpc cause c = Inr c'"
  shows "query_status c' =
     (if ok (query_status c)
      then (case cause of None \<Rightarrow> CANCELLED | Some st \<Rightarrow> if \<not> ok st then st else CANCELLED)
      else query_status c)"
  using Cancel_Inr[OF assms] by (auto dest: CancelInternal_query_status)

lemma Cancel_not_ok:
  assumes "Cancel d rpc cause c = Inr c'"
  shows "\<not> ok (query_status c')"
  using Cancel_query_status[OF assms] by (auto split: option.splits)

lemma run_env_op_query_status_sticky:
  assumes "run_env_op d e c = Inr c'" "\<not> ok (query_status c)"
  shows "query_status c' = query_status c"
proof (cases e)
  case (ReportExecStatus p rpc)
  with assms obtain r where "UpdateFragmentExecStatus d rpc p c = Inr (r, c')"
    by (auto simp: bind_r_Inr_iff)
  from UpdateFragmentExecStatus_query_status[OF this] assms(2) show ?thesis by simp
next
  case (CancelQuery cause rpc)
  with assms have "Cancel d rpc cause c = Inr c'" by simp
  from Cancel_query_status[OF this] assms(2) show ?thesis by simp
qed

lemma run_env_ops_query_status_sticky:
  "run_env_ops d ops c = Inr c' \<Longrightarrow> \<not> ok (query_status c) \<Longrightarrow> query_status c' = query_status c"
proof (induction ops arbitrary: c)
  case Nil
  then show ?case by simp
next
  case (Cons e es)
  then obtain c1 where 1: "run_env_op d e c = Inr c1" and 2: "run_env_ops d es c1 = Inr c'"
    by (auto simp: bind_r_Inr_iff)
  from run_env_op_query_status_sticky[OF 1 Cons.prems(2)] Cons.prems(2) Cons.IH[OF 2]
  show ?case by simp
qed

lemmas eval_defs = Cancel_def CancelInternal_def CancelRemoteFragments_def cancel_exec_state_def
  ReportQuerySummary_def emit_def DCHECK_def UpdateStatus_def coord2_def es_running_def rpc_ok_def
  parse_error_def CANCELLED_def note_reply_def Let_def

lemma filter_update_count:
  "n < length xs \<Longrightarrow>
     length (filter P (xs[n := y])) + (if P (xs ! n) then 1 else 0)
       = length (filter P xs) + (if P y then 1 else 0)"
proof (induction xs arbitrary: n)
  case Nil
  then show ?case by simp
next
  case (Cons x xs)
  show ?case
  proof (cases n)
    case 0
    then show ?thesis by simp
  next
    case (Suc m)
    with Cons.prems have "m < length xs" by simp
    from Cons.IH[OF this] Suc show ?thesis by simp
  qed
qed

lemma update_exec_state_is_done [simp]: "is_done (update_exec_state p es) = rep_done p"
  by (simp add: update_exec_state_def Let_def split: option.splits)

lemma update_exec_state_status:
  "status (update_exec_state p es) =
     (if ok (Status_of_TStatus (rep_status p)) then status es else Status_of_TStatus (rep_status p))"
  by (simp add: update_exec_state_def Let_def split: option.splits)

lemma cancel_exec_state_is_done [simp]:
  "is_done (fst (cancel_exec_state q out i es)) = is_done es"
  by (simp add: cancel_exec_state_def Let_def split: CancelRpcOutcome.splits)

lemma cancel_loop_None:
  "cancel_loop q rpc i (None # rest)
     = (None # fst (cancel_loop q rpc (Suc i) rest), snd (cancel_loop q rpc (Suc i) rest))"
  by (simp split: prod.splits)

lemma cancel_loop_Some:
  "cancel_loop q rpc i (Some es # rest)
     = (Some (fst (cancel_exec_state q (rpc i) i es)) # fst (cancel_loop q rpc (Suc i) rest),
        snd (cancel_exec_state q (rpc i) i es) @ snd (cancel_loop q rpc (Suc i) rest))"
  by (simp split: prod.splits)

lemma cancel_loop_length [simp]: "length (fst (cancel_loop q rpc i xs)) = length xs"
proof (induction xs arbitrary: i)
  case Nil
  then show ?case by simp
next
  case (Cons x xs)
  then show ?case by (cases x) (simp_all only: cancel_loop_None cancel_loop_Some fst_conv length_Cons)
qed

lemma cancel_loop_nth:
  "n < length xs \<Longrightarrow>
     fst (cancel_loop q rpc i xs) ! n
       = map_option (\<lambda>es. fst (cancel_exec_state q (rpc (i + n)) (i + n) es)) (xs ! n)"
proof (induction xs arbitrary: i n)
  case Nil
  then show ?case by simp
next
  case (Cons x xs)
  show ?case
  proof (cases n)
    case 0
    then show ?thesis by (cases x) (simp_all add: cancel_loop_None cancel_loop_Some del: cancel_loop.simps)
  next
    case (Suc m)
    with Cons.prems have "m < length xs" by simp
    from Cons.IH[OF this, of "Suc i"] Suc show ?thesis
      by (cases x) (simp_all add: cancel_loop_None cancel_loop_Some del: cancel_loop.simps)
  qed
qed

lemma still_running_simps [simp]:
  "still_running None = False" "still_running (Some es) = (\<not> is_done es)"
  by (simp_all add: still_running_def)

lemma cancel_loop_not_done:
  "length (filter still_running (fst (cancel_loop q rpc i xs))) = length (filter still_running xs)"
proof (induction xs arbitrary: i)
  case Nil
  then show ?case by simp
next
  case (Cons x xs)
  from Cons.IH[of "Suc i"] show ?case
    by (cases x) (simp_all add: cancel_loop_None cancel_loop_Some del: cancel_loop.simps)
qed

lemma CancelRemoteFragments_num_not_done [simp]:
  "num_not_done (CancelRemoteFragments rpc c) = num_not_done c"
  by (simp add: num_not_done_def cancel_loop_not_done)

lemma num_not_done_emit [simp]: "num_not_done (emit evs c) = num_not_done c"
  by (simp add: num_not_done_def)

lemma CancelInternal_counts:
  assumes "CancelInternal d rpc c = Inr c'"
  shows "num_remaining_backends c' = num_remaining_backends c" "num_not_done c' = num_not_done c"
  using CancelInternal_Inr[OF assms] by (auto simp: num_not_done_def cancel_loop_not_done)

lemma Cancel_counts:
  assumes "Cancel d rpc cause c = Inr c'"
  shows "num_remaining_backends c' = num_remaining_backends c" "num_not_done c' = num_not_done c"
  using Cancel_Inr[OF assms] CancelInternal_counts[of d rpc _ c']
  by (auto simp: num_not_done_def)

lemma UpdateStatus_counts:
  assumes "UpdateStatus d rpc st c = Inr (r, c')"
  shows "num_remaining_backends c' = num_remaining_backends c" "num_not_done c' = num_not_done c"
  using UpdateStatus_Inr(2)[OF assms] CancelInternal_counts[of d rpc _ c']
  by (auto simp: num_not_done_def)

text \<open>The shape of a call of UpdateFragmentExecStatus that returns.\<close>

lemma UpdateFragmentExecStatus_Inr:
  assumes "UpdateFragmentExecStatus d rpc p c = Inr (r, c')"
  shows "(rep_backend_num p < 0 \<or> int (length (backend_exec_states c)) \<le> rep_backend_num p)
           \<and> c' = c \<and> r = Error TStatusCode_INTERNAL_ERROR [''unknown backend number'']
       \<or> (\<exists>es. 0 \<le> rep_backend_num p \<and> rep_backend_num p < int (length (backend_exec_states c))
            \<and> backend_exec_states c ! nat (rep_backend_num p) = Some es \<and> r = OK
            \<and> (aborts_query (Status_of_TStatus (rep_status p)) c
                 \<and> (\<exists>r'. UpdateStatus d rpc (Status_of_TStatus (rep_status p))
                            (apply_report p (nat (rep_backend_num p)) es c) = Inr (r', c'))
               \<or> \<not> aborts_query (Status_of_TStatus (rep_status p)) c \<and> rep_done p
                 \<and> backend_completed d (nat (rep_backend_num p))
                      (apply_report p (nat (rep_backend_num p)) es c) = Inr (OK, c')
               \<or> \<not> aborts_query (Status_of_TStatus (rep_status p)) c \<and> \<not> rep_done p
                 \<and> c' = apply_report p (nat (rep_backend_num p)) es c))"
  using assms unfolding UpdateFragmentExecStatus_def
  by (auto simp: bind_r_Inr_iff Let_def aborts_query_def split: if_splits option.splits
      dest: backend_completed_Inr(1))

lemma num_not_done_apply_report:
  assumes "n < length (backend_exec_states c)" "backend_exec_states c ! n = Some es"
  shows "num_not_done (apply_report p n es c) + (if is_done es then 0 else 1)
       = num_not_done c + (if rep_done p then 0 else 1)"
  using filter_update_count[OF assms(1),
      of still_running "Some (update_exec_state p es)"]
    assms(2)
  by (auto simp: num_not_done_def split: if_splits)

lemma num_not_done_backend_completed:
  assumes "backend_completed d n c = Inr (r, c')"
  shows "num_not_done c' = num_not_done c"
proof (cases "n < length (backend_exec_states c)")
  case True
  from filter_update_count[OF True,
      of still_running
         "map_option (\<lambda>es. es\<lparr>stopwatch_running := False\<rparr>) (backend_exec_states c ! n)"]
  show ?thesis
    by (cases "backend_exec_states c ! n")
      (auto simp: num_not_done_def backend_completed_Inr(5)[OF assms] split: if_splits)
next
  case False
  then have "length (backend_exec_states c) \<le> n" by simp
  then show ?thesis
    by (simp add: num_not_done_def backend_completed_Inr(5)[OF assms] list_update_beyond)
qed

lemma UpdateFragmentExecStatus_remaining_le:
  assumes "UpdateFragmentExecStatus d rpc p c = Inr (r, c')"
  shows "num_remaining_backends c' \<le> num_remaining_backends c"
  using UpdateFragmentExecStatus_Inr[OF assms]
  by (auto dest: UpdateStatus_counts(1) backend_completed_Inr(3))

lemma run_env_op_remaining_le:
  assumes "run_env_op d e c = Inr c'"
  shows "num_remaining_backends c' \<le> num_remaining_backends c"
proof (cases e)
  case (ReportExecStatus p rpc)
  with assms obtain r where "UpdateFragmentExecStatus d rpc p c = Inr (r, c')"
    by (auto simp: bind_r_Inr_iff)
  then show ?thesis by (rule UpdateFragmentExecStatus_remaining_le)
next
  case (CancelQuery cause rpc)
  with assms show ?thesis by (simp add: Cancel_counts(1))
qed

lemma run_env_ops_remaining_le:
  "run_env_ops d ops c = Inr c' \<Longrightarrow> num_remaining_backends c' \<le> num_remaining_backends c"
proof (induction ops arbitrary: c)
  case Nil
  then show ?case by simp
next
  case (Cons e es)
  then obtain c1 where 1: "run_env_op d e c = Inr c1" and 2: "run_env_ops d es c1 = Inr c'"
    by (auto simp: bind_r_Inr_iff)
  from run_env_op_remaining_le[OF 1] Cons.IH[OF 2] show ?case by simp
qed

lemmas report_eval_defs = UpdateFragmentExecStatus_def apply_report_def update_exec_state_def
  backend_completed_def aborts_query_def Status_of_TStatus_def report_def TStatus_OK_def
  TStatus_parse_error_def merge_insert_status_def num_not_done_def remaining_and_not_done_def still_running_def

lemma not_ok_AddErrorMsg [simp]: "\<not> ok (AddErrorMsg m st)"
  by (cases st) simp_all

lemma IsCancelled_AddErrorMsg [simp]: "\<not> ok st \<Longrightarrow> IsCancelled (AddErrorMsg m st) = IsCancelled st"
  by (cases st) simp_all

lemma not_ok_AddError [simp]: "\<not> ok st \<Longrightarrow> \<not> ok (AddError x st)"
  by (cases x; cases st) simp_all

lemma IsCancelled_AddError [simp]: "\<not> ok st \<Longrightarrow> IsCancelled (AddError x st) = IsCancelled st"
  by (cases x; cases st) simp_all

lemma note_reply_CANCELLED [simp]:
  "\<not> ok (note_reply res CANCELLED)" "IsCancelled (note_reply res CANCELLED)"
  by (simp_all add: note_reply_def)

lemma cancel_exec_state_skipped:
  "\<not> (ok (status es) \<and> initiated es \<and> \<not> is_done es) \<Longrightarrow> cancel_exec_state q out i es = (es, [])"
  by (auto simp: cancel_exec_state_def)

lemma cancel_exec_state_cancelled:
  assumes "ok (status es)" "initiated es" "\<not> is_done es"
  shows "IsCancelled (status (fst (cancel_exec_state q out i es)))"
    "\<not> ok (status (fst (cancel_exec_state q out i es)))"
    "initiated (fst (cancel_exec_state q out i es))"
  using assms by (simp_all add: cancel_exec_state_def Let_def split: CancelRpcOutcome.splits)

lemma cancel_exec_state_status_ok:
  "ok (status (fst (cancel_exec_state q out i es))) \<Longrightarrow> ok (status es)"
  by (cases "ok (status es) \<and> initiated es \<and> \<not> is_done es")
    (auto simp: cancel_exec_state_cancelled(2) cancel_exec_state_skipped)

lemma never_back_to_OK_refl [simp]: "never_back_to_OK s s"
  by (simp add: never_back_to_OK_def split: option.splits)

lemma never_back_to_OK_trans:
  "never_back_to_OK a b \<Longrightarrow> never_back_to_OK b c \<Longrightarrow> never_back_to_OK a c"
  by (auto simp: never_back_to_OK_def split: option.splits)

lemma status_monotonic_refl [simp]: "status_monotonic c c"
  by (simp add: status_monotonic_def list_all2_conv_all_nth)

lemma status_monotonic_trans:
  "status_monotonic a b \<Longrightarrow> status_monotonic b c \<Longrightarrow> status_monotonic a c"
  unfolding status_monotonic_def
  by (rule list_all2_trans[where ?P1.0 = never_back_to_OK and ?P2.0 = never_back_to_OK])
    (auto intro: never_back_to_OK_trans)

lemma status_monotonic_same_states:
  "backend_exec_states c' = backend_exec_states c \<Longrightarrow> status_monotonic c c'"
  by (simp add: status_monotonic_def list_all2_conv_all_nth)

lemma list_all2_never_back_update:
  assumes "n < length xs \<Longrightarrow> never_back_to_OK (xs ! n) y"
  shows "list_all2 never_back_to_OK xs (xs[n := y])"
proof -
  have "never_back_to_OK (xs ! i) (xs[n := y] ! i)" if "i < length xs" for i
    using that assms by (cases "i = n") simp_all
  then show ?thesis by (simp add: list_all2_conv_all_nth)
qed

lemma status_monotonic_CancelRemoteFragments: "status_monotonic c (CancelRemoteFragments rpc c)"
  unfolding status_monotonic_def
  by (auto simp: list_all2_conv_all_nth cancel_loop_nth never_back_to_OK_def
      split: option.splits dest: cancel_exec_state_status_ok)

lemma status_monotonic_apply_report:
  "backend_exec_states c ! n = Some es \<Longrightarrow> status_monotonic c (apply_report p n es c)"
  unfolding status_monotonic_def
  by (auto intro!: list_all2_never_back_update
      simp: never_back_to_OK_def update_exec_state_status split: if_splits)

lemma status_monotonic_backend_completed:
  assumes "backend_completed d n c = Inr (r, c')"
  shows "status_monotonic c c'"
  unfolding status_monotonic_def backend_completed_Inr(5)[OF assms]
  by (auto intro!: list_all2_never_back_update simp: never_back_to_OK_def split: option.splits)

lemma status_monotonic_emit [simp]: "status_monotonic c (emit evs c') = status_monotonic c c'"
  by (simp add: status_monotonic_def)

lemma status_monotonic_CancelInternal:
  assumes "CancelInternal d rpc c = Inr c'"
  shows "status_monotonic c c'"
proof -
  from CancelInternal_Inr[OF assms] obtain evs where
    c': "c' = emit evs (CancelRemoteFragments rpc (if has_executor c then emit [ExecutorCancel] c else c))"
    by blast
  have "status_monotonic (if has_executor c then emit [ExecutorCancel] c else c)
     (CancelRemoteFragments rpc (if has_executor c then emit [ExecutorCancel] c else c))"
    by (rule status_monotonic_CancelRemoteFragments)
  then show ?thesis unfolding c' by (simp add: status_monotonic_def split: if_splits)
qed

lemma status_monotonic_set_query_status:
  "status_monotonic (c\<lparr>query_status := st\<rparr>) c' = status_monotonic c c'"
  by (simp add: status_monotonic_def)

lemma status_monotonic_UpdateStatus:
  assumes "UpdateStatus d rpc st c = Inr (r, c')"
  shows "status_monotonic c c'"
  using UpdateStatus_Inr(2)[OF assms]
  by (auto dest!: status_monotonic_CancelInternal simp: status_monotonic_set_query_status)

lemma status_monotonic_Cancel:
  assumes "Cancel d rpc cause c = Inr c'"
  shows "status_monotonic c c'"
  using Cancel_Inr[OF assms]
  by (auto dest!: status_monotonic_CancelInternal simp: status_monotonic_set_query_status)

lemma status_monotonic_UpdateFragmentExecStatus:
  assumes "UpdateFragmentExecStatus d rpc p c = Inr (r, c')"
  shows "status_monotonic c c'"
  using UpdateFragmentExecStatus_Inr[OF assms]
  by (auto dest!: status_monotonic_UpdateStatus status_monotonic_backend_completed
      intro: status_monotonic_trans[OF status_monotonic_apply_report]
      status_monotonic_apply_report)

lemma status_monotonic_run_env_op:
  assumes "run_env_op d e c = Inr c'"
  shows "status_monotonic c c'"
proof (cases e)
  case (ReportExecStatus p rpc)
  with assms obtain r where "UpdateFragmentExecStatus d rpc p c = Inr (r, c')"
    by (auto simp: bind_r_Inr_iff)
  then show ?thesis by (rule status_monotonic_UpdateFragmentExecStatus)
next
  case (CancelQuery cause rpc)
  with assms show ?thesis by (simp add: status_monotonic_Cancel)
qed

lemma status_monotonic_run_env_ops:
  "run_env_ops d ops c = Inr c' \<Longrightarrow> status_monotonic c c'"
proof (induction ops arbitrary: c)
  case Nil
  then show ?case by simp
next
  case (Cons e es)
  then obtain c1 where 1: "run_env_op d e c = Inr c1" and 2: "run_env_ops d es c1 = Inr c'"
    by (auto simp: bind_r_Inr_iff)
  from status_monotonic_run_env_op[OF 1] Cons.IH[OF 2] show ?case
    by (rule status_monotonic_trans)
qed

lemma Status_of_TStatus_OK [simp]:
  "status_code t = TStatusCode_OK \<Longrightarrow> Status_of_TStatus t = OK"
  by (simp add: Status_of_TStatus_def)

lemma UpdateFragmentExecStatus_final_OK:
  assumes "n < length (backend_exec_states c)" "backend_exec_states c ! n = Some es"
    "rep_backend_num p = int n" "status_code (rep_status p) = TStatusCode_OK" "rep_done p"
    "d \<longrightarrow> 0 < num_remaining_backends c"
  shows "\<exists>c'. UpdateFragmentExecStatus d rpc p c = Inr (OK, c')
      \<and> backend_exec_states c' ! n = Some ((update_exec_state p es)\<lparr>stopwatch_running := False\<rparr>)
      \<and> num_remaining_backends c' = num_remaining_backends c - 1
      \<and> query_status c' = query_status c"
  using assms
  by (simp add: UpdateFragmentExecStatus_def Let_def aborts_query_def backend_completed_def
      DCHECK_def)

lemma Cancel_state_cancelled:
  assumes "Cancel d rpc cause c = Inr c1" "ok (query_status c)" "n < length (backend_exec_states c)"
    "backend_exec_states c ! n = Some es"
  shows "backend_exec_states c1 ! n = Some (fst (cancel_exec_state (query_id c) (rpc n) n es))"
  using Cancel_Inr[OF assms(1)] assms(2-)
  by (auto dest!: CancelInternal_Inr simp: cancel_loop_nth)

lemma cancel_exec_state_rpc_count:
  "count_list (snd (cancel_exec_state q out i es)) (CancelPlanFragmentRpc j)
     = (if j = i \<and> ok (status es) \<and> initiated es \<and> \<not> is_done es \<and> out \<noteq> ConnectionFailed
        then 1 else 0)"
  by (simp add: cancel_exec_state_def Let_def split: CancelRpcOutcome.splits)

lemma cancel_loop_rpc_count:
  "count_list (snd (cancel_loop q rpc i xs)) (CancelPlanFragmentRpc j)
     = (if i \<le> j \<and> j < i + length xs
           \<and> (case xs ! (j - i) of None \<Rightarrow> False
               | Some es \<Rightarrow> ok (status es) \<and> initiated es \<and> \<not> is_done es)
           \<and> rpc j \<noteq> ConnectionFailed
        then 1 else 0)"
proof (induction xs arbitrary: i)
  case Nil
  then show ?case by simp
next
  case (Cons x xs)
  show ?case
  proof (cases "j = i")
    case True
    with Cons.IH[of "Suc i"] show ?thesis
      by (cases x)
        (simp_all add: cancel_loop_None cancel_loop_Some cancel_exec_state_rpc_count
          del: cancel_loop.simps)
  next
    case False
    have nth: "(x # xs) ! (j - i) = xs ! (j - Suc i)" if "i < j"
    proof -
      from that have "j - i = Suc (j - Suc i)" by arith
      then show ?thesis by simp
    qed
    from False Cons.IH[of "Suc i"] nth show ?thesis
      by (cases x)
        (auto simp add: cancel_loop_None cancel_loop_Some cancel_exec_state_rpc_count
          simp del: cancel_loop.simps)
  qed
qed

lemma cancel_loop_None_iff:
  "None \<in> set (fst (cancel_loop q rpc i xs)) \<longleftrightarrow> None \<in> set xs"
proof (induction xs arbitrary: i)
  case Nil
  then show ?case by simp
next
  case (Cons x xs)
  from Cons.IH[of "Suc i"] show ?case
    by (cases x) (simp_all add: cancel_loop_None cancel_loop_Some del: cancel_loop.simps)
qed

lemma CancelInternal_returns:
  assumes "\<not> ok (query_status c)" "has_called_wait c \<longrightarrow> None \<notin> set (backend_exec_states c)"
  shows "\<exists>c1. CancelInternal d rpc c = Inr c1"
  using assms
  by (simp add: CancelInternal_def DCHECK_def ReportQuerySummary_def Let_def cancel_loop_None_iff)

lemma CancelInternal_rpc_count:
  assumes "CancelInternal d rpc c = Inr c1"
  shows "count_list (trace c1) (CancelPlanFragmentRpc i)
     = count_list (trace c) (CancelPlanFragmentRpc i)
       + (if cancellable c i \<and> rpc i \<noteq> ConnectionFailed then 1 else 0)"
proof -
  from CancelInternal_Inr[OF assms] obtain evs where
    c1: "c1 = emit evs (CancelRemoteFragments rpc (if has_executor c then emit [ExecutorCancel] c else c))"
    and evs: "set evs \<subseteq> {QuerySummary}"
    by blast
  from evs have "CancelPlanFragmentRpc i \<notin> set evs" by auto
  then have 0: "count_list evs (CancelPlanFragmentRpc i) = 0" by (simp add: count_list_0_iff)
  show ?thesis unfolding c1
    by (simp add: 0 cancel_loop_rpc_count cancellable_def)
qed

lemma Cancel_again:
  assumes "Cancel d rpc cause c = Inr c1"
  shows "Cancel d rpc' cause' c1 = Inr c1"
  using Cancel_not_ok[OF assms] by (simp add: Cancel_def)

lemma run_cancel_calls_no_effect:
  "\<not> ok (query_status c) \<Longrightarrow> run_env_ops d (cancel_calls calls) c = Inr c"
  by (induction calls) (simp_all add: cancel_calls_def Cancel_def)

lemma map_of_smap_put: "map_of (smap_put k v m) = (map_of m)(k \<mapsto> v)"
  by (induction m) (auto simp: fun_eq_iff)

lemma keys_smap_put: "fst ` set (smap_put k v m) = insert k (fst ` set m)"
  by (induction m) auto

lemma distinct_smap_put:
  "distinct (map fst m) \<Longrightarrow> k \<notin> fst ` set m \<Longrightarrow> distinct (map fst (smap_put k v m))"
proof (induction m)
  case Nil
  then show ?case by simp
next
  case (Cons e m)
  from Cons.prems have "distinct (map fst (smap_put k v m))" by (intro Cons.IH) auto
  moreover have "fst e \<notin> fst ` set (smap_put k v m)"
    using Cons.prems by (auto simp: keys_smap_put)
  ultimately show ?case using Cons.prems by auto
qed

lemma row_count_smap_add:
  "row_count (smap_add k c m) k' = row_count m k' + (if k' = k then c else 0)"
  by (simp add: row_count_def smap_add_def map_of_smap_put split: option.splits)

lemma keys_smap_add: "fst ` set (smap_add k c m) = insert k (fst ` set m)"
  by (simp add: smap_add_def keys_smap_put)

lemma row_count_merge_row_counts:
  "row_count (merge_row_counts es m) k
     = row_count m k + sum_list (map snd (filter (\<lambda>e. fst e = k) es))"
  unfolding merge_row_counts_def
  by (induction es arbitrary: m) (simp_all add: row_count_smap_add add.assoc)

lemma keys_merge_row_counts:
  "fst ` set (merge_row_counts es m) = fst ` set m \<union> fst ` set es"
  unfolding merge_row_counts_def
  by (induction es arbitrary: m) (auto simp: keys_smap_add)

lemma map_of_smap_insert: "map_of (smap_insert e m) = map_of (m @ [e])"
  by (cases e) (auto simp: smap_insert_def map_of_smap_put fun_eq_iff map_add_def
      split: option.splits)

lemma map_of_merge_files: "map_of (merge_files es m) = map_of (m @ es)"
  unfolding merge_files_def
proof (induction es arbitrary: m)
  case Nil
  then show ?case by simp
next
  case (Cons e es)
  have "map_of (fold smap_insert es (smap_insert e m)) = map_of (smap_insert e m @ es)"
    by (rule Cons.IH)
  also have "\<dots> = map_of ((m @ [e]) @ es)"
    by (simp only: map_of_append map_of_smap_insert)
  finally show ?case by simp
qed

lemma distinct_smap_insert:
  "distinct (map fst m) \<Longrightarrow> distinct (map fst (smap_insert e m))"
  by (auto simp: smap_insert_def map_of_eq_None_iff intro: distinct_smap_put)

lemma distinct_merge_files:
  "distinct (map fst m) \<Longrightarrow> distinct (map fst (merge_files es m))"
  unfolding merge_files_def
  by (induction es arbitrary: m) (simp_all add: distinct_smap_insert)

lemma graph_map_of_consistent:
  assumes "consistent xs"
  shows "Map.graph (map_of xs) = set xs"
proof (rule set_eqI)
  fix e :: "string \<times> string"
  obtain k v where e: "e = (k, v)" by (cases e)
  show "e \<in> Map.graph (map_of xs) \<longleftrightarrow> e \<in> set xs"
  proof
    assume "e \<in> Map.graph (map_of xs)"
    then show "e \<in> set xs" unfolding e by (auto simp: in_graphI Map.graph_def dest: map_of_SomeD)
  next
    assume m: "e \<in> set xs"
    then obtain v' where v': "map_of xs k = Some v'"
      unfolding e by (auto dest: weak_map_of_SomeI)
    then have "(k, v') \<in> set xs" by (rule map_of_SomeD)
    with m assms have "v' = v" unfolding e consistent_def by fastforce
    with v' show "e \<in> Map.graph (map_of xs)" unfolding e by (simp add: Map.graph_def)
  qed
qed

lemma merge_insert_status_maps [simp]:
  "partition_row_counts (merge_insert_status ies c)
     = merge_row_counts (ies_num_appended_rows ies) (partition_row_counts c)"
  "files_to_move (merge_insert_status ies c)
     = merge_files (ies_files_to_move ies) (files_to_move c)"
  by (simp_all add: merge_insert_status_def)

lemma apply_report_maps:
  "partition_row_counts (apply_report p n es c)
     = (case rep_insert_exec_status p of
          None \<Rightarrow> partition_row_counts c
        | Some ies \<Rightarrow> if rep_done p
            then merge_row_counts (ies_num_appended_rows ies) (partition_row_counts c)
            else partition_row_counts c)"
  "files_to_move (apply_report p n es c)
     = (case rep_insert_exec_status p of
          None \<Rightarrow> files_to_move c
        | Some ies \<Rightarrow> if rep_done p
            then merge_files (ies_files_to_move ies) (files_to_move c)
            else files_to_move c)"
  by (simp_all add: apply_report_def Let_def split: option.splits)

lemma CancelInternal_maps:
  assumes "CancelInternal d rpc c = Inr c'"
  shows "partition_row_counts c' = partition_row_counts c" "files_to_move c' = files_to_move c"
  using CancelInternal_Inr[OF assms] by auto

lemma UpdateStatus_maps:
  assumes "UpdateStatus d rpc st c = Inr (r, c')"
  shows "partition_row_counts c' = partition_row_counts c" "files_to_move c' = files_to_move c"
  using UpdateStatus_Inr(2)[OF assms] by (auto dest: CancelInternal_maps)

lemma Cancel_maps:
  assumes "Cancel d rpc cause c = Inr c'"
  shows "partition_row_counts c' = partition_row_counts c" "files_to_move c' = files_to_move c"
  using Cancel_Inr[OF assms] by (auto dest: CancelInternal_maps)

lemma UpdateFragmentExecStatus_maps:
  assumes "UpdateFragmentExecStatus d rpc p c = Inr (r, c')"
  shows "partition_row_counts c'
     = (case merged_status c p of
          None \<Rightarrow> partition_row_counts c
        | Some ies \<Rightarrow> merge_row_counts (ies_num_appended_rows ies) (partition_row_counts c))"
    and "files_to_move c'
     = (case merged_status c p of
          None \<Rightarrow> files_to_move c
        | Some ies \<Rightarrow> merge_files (ies_files_to_move ies) (files_to_move c))"
proof -
  let ?n = "nat (rep_backend_num p)"
  from UpdateFragmentExecStatus_Inr[OF assms]
  consider (unknown) "rep_backend_num p < 0 \<or> int (length (backend_exec_states c)) \<le> rep_backend_num p"
      "c' = c"
    | (known) es where "0 \<le> rep_backend_num p"
      "rep_backend_num p < int (length (backend_exec_states c))"
      "partition_row_counts c' = partition_row_counts (apply_report p ?n es c)"
      "files_to_move c' = files_to_move (apply_report p ?n es c)"
    by (elim disjE exE conjE)
      (simp_all add: UpdateStatus_maps backend_completed_Inr(9,10))
  then have "partition_row_counts c'
     = (case merged_status c p of
          None \<Rightarrow> partition_row_counts c
        | Some ies \<Rightarrow> merge_row_counts (ies_num_appended_rows ies) (partition_row_counts c))
    \<and> files_to_move c'
     = (case merged_status c p of
          None \<Rightarrow> files_to_move c
        | Some ies \<Rightarrow> merge_files (ies_files_to_move ies) (files_to_move c))"
  proof cases
    case unknown
    then have "merged_status c p = None" by (auto simp: merged_status_def)
    with unknown show ?thesis by simp
  next
    case known
    then have "merged_status c p = (if rep_done p then rep_insert_exec_status p else None)"
      by (simp add: merged_status_def)
    with known(3,4) show ?thesis by (simp add: apply_report_maps split: option.splits)
  qed
  then show "partition_row_counts c'
     = (case merged_status c p of
          None \<Rightarrow> partition_row_counts c
        | Some ies \<Rightarrow> merge_row_counts (ies_num_appended_rows ies) (partition_row_counts c))"
    and "files_to_move c'
     = (case merged_status c p of
          None \<Rightarrow> files_to_move c
        | Some ies \<Rightarrow> merge_files (ies_files_to_move ies) (files_to_move c))"
    by simp_all
qed

lemma status_monotonic_length:
  "status_monotonic c c' \<Longrightarrow> length (backend_exec_states c') = length (backend_exec_states c)"
  by (auto simp: status_monotonic_def dest: list_all2_lengthD)

lemma merged_statuses_length_cong:
  "length (backend_exec_states c') = length (backend_exec_states c)
     \<Longrightarrow> merged_statuses c' ops = merged_statuses c ops"
  by (simp add: merged_statuses_def merged_status_def[abs_def])

lemma merged_statuses_simps [simp]:
  "merged_statuses c [] = []"
  "merged_statuses c (CancelQuery cause rpc # ops) = merged_statuses c ops"
  "merged_statuses c (ReportExecStatus p rpc # ops)
     = (case merged_status c p of None \<Rightarrow> merged_statuses c ops
        | Some ies \<Rightarrow> ies # merged_statuses c ops)"
  by (simp_all add: merged_statuses_def List.map_filter_simps split: option.splits)

lemma run_env_ops_maps:
  "run_env_ops d ops c = Inr c' \<Longrightarrow>
     (\<forall>k. row_count (partition_row_counts c') k
            = row_count (partition_row_counts c) k
              + sum_list (map (reported_rows k) (merged_statuses c ops)))
     \<and> fst ` set (partition_row_counts c')
         = fst ` set (partition_row_counts c)
           \<union> (\<Union>ies \<in> set (merged_statuses c ops). fst ` set (ies_num_appended_rows ies))
     \<and> map_of (files_to_move c')
         = map_of (files_to_move c @ concat (map ies_files_to_move (merged_statuses c ops)))
     \<and> (distinct (map fst (files_to_move c)) \<longrightarrow> distinct (map fst (files_to_move c')))"
proof (induction ops arbitrary: c)
  case Nil
  then show ?case by simp
next
  case (Cons e es)
  then obtain c1 where 1: "run_env_op d e c = Inr c1" and 2: "run_env_ops d es c1 = Inr c'"
    by (auto simp: bind_r_Inr_iff)
  from status_monotonic_run_env_op[OF 1]
  have len: "length (backend_exec_states c1) = length (backend_exec_states c)"
    by (rule status_monotonic_length)
  note ih = Cons.IH[OF 2, unfolded merged_statuses_length_cong[OF len]]
  show ?case
  proof (cases e)
    case (CancelQuery cause rpc)
    with 1 have "Cancel d rpc cause c = Inr c1" by simp
    from Cancel_maps[OF this] ih CancelQuery show ?thesis by simp
  next
    case (ReportExecStatus p rpc)
    with 1 obtain r where u: "UpdateFragmentExecStatus d rpc p c = Inr (r, c1)"
      by (auto simp: bind_r_Inr_iff)
    note m = UpdateFragmentExecStatus_maps[OF u]
    show ?thesis
    proof (cases "merged_status c p")
      case None
      with m ih ReportExecStatus show ?thesis by simp
    next
      case (Some ies)
      with m have prc: "partition_row_counts c1
          = merge_row_counts (ies_num_appended_rows ies) (partition_row_counts c)"
        and ftm: "files_to_move c1 = merge_files (ies_files_to_move ies) (files_to_move c)"
        by simp_all
      have a: "\<forall>k. row_count (partition_row_counts c') k
            = row_count (partition_row_counts c) k
              + sum_list (map (reported_rows k) (merged_statuses c (e # es)))"
        using ih Some ReportExecStatus
        by (simp add: prc row_count_merge_row_counts reported_rows_def[abs_def] add.assoc)
      have b: "fst ` set (partition_row_counts c')
         = fst ` set (partition_row_counts c)
           \<union> (\<Union>ies \<in> set (merged_statuses c (e # es)). fst ` set (ies_num_appended_rows ies))"
        using ih Some ReportExecStatus
        by (simp add: prc keys_merge_row_counts Un_assoc)
      have "map_of (files_to_move c')
         = map_of (concat (map ies_files_to_move (merged_statuses c es)))
             ++ map_of (files_to_move c1)"
        using ih by (simp only: map_of_append)
      also have "map_of (files_to_move c1) = map_of (files_to_move c @ ies_files_to_move ies)"
        by (simp only: ftm map_of_merge_files)
      finally have c: "map_of (files_to_move c')
         = map_of (files_to_move c @ concat (map ies_files_to_move (merged_statuses c (e # es))))"
        using Some ReportExecStatus by (simp add: map_add_assoc)
      have dd: "distinct (map fst (files_to_move c)) \<longrightarrow> distinct (map fst (files_to_move c'))"
        using ih by (simp add: ftm distinct_merge_files)
      from a b c dd show ?thesis by (intro conjI)
    qed
  qed
qed

lemma distinct_keys_consistent: "distinct (map fst xs) \<Longrightarrow> consistent xs"
  unfolding consistent_def by (auto dest: eq_key_imp_eq_value)

lemmas insert_eval_defs = coord_insert_def insert_report0_def insert_report1_def insert_status_def
  merge_row_counts_def merge_files_def smap_add_def smap_insert_def

lemma root_deletions_only_files:
  "o' \<in> set (root_deletions fs files) \<Longrightarrow>
     op o' = DELETE \<and> dst o' = []
     \<and> (\<exists>f \<in> set files. src o' = mName f \<and> mKind f = kObjectKindFile
           \<and> \<not> IsHiddenFile fs (filename fs (mName f)))"
  by (auto simp: root_deletions_def Add_def)

lemma root_deletions_all_files:
  "f \<in> set files \<Longrightarrow> mKind f = kObjectKindFile \<Longrightarrow> \<not> IsHiddenFile fs (filename fs (mName f))
     \<Longrightarrow> Add DELETE (mName f) \<in> set (root_deletions fs files)"
  by (auto simp: root_deletions_def)

lemma partition_create_ops_added:
  "partition_create_ops d fs fp n parts acc = Inr (Inr ops) \<Longrightarrow>
     \<exists>new. ops = acc @ new \<and> (\<forall>o' \<in> set new. root_or_partition_op fs fp o')"
proof (induction parts arbitrary: acc)
  case Nil
  then show ?case by simp
next
  case (Cons part rest)
  let ?path = "hdfs_base_dir fp @ ''/'' @ fst part"
  show ?case
  proof (cases "is_overwrite fp")
    case False
    with Cons.prems have "partition_create_ops d fs fp n rest (acc @ [Add CREATE_DIR ?path]) = Inr (Inr ops)"
      by (simp add: Let_def)
    from Cons.IH[OF this] show ?thesis
      by (auto simp: root_or_partition_op_def Add_def)
  next
    case True
    show ?thesis
    proof (cases "fst part = []")
      case empty: True
      with True Cons.prems obtain files where
        l: "hdfsListDirectory fs (hdfs_base_dir fp @ ''/'') = Some files"
        and r: "partition_create_ops d fs fp n rest (acc @ root_deletions fs files) = Inr (Inr ops)"
        by (auto simp: Let_def bind_r_Inr_iff split: option.splits)
      from Cons.IH[OF r] obtain new where new: "ops = (acc @ root_deletions fs files) @ new"
        "\<forall>o' \<in> set new. root_or_partition_op fs fp o'" by blast
      have "root_or_partition_op fs fp o'" if "o' \<in> set (root_deletions fs files)" for o'
        using root_deletions_only_files[OF that] l True that
        by (auto simp: root_or_partition_op_def)
      then have "\<forall>o' \<in> set (root_deletions fs files). root_or_partition_op fs fp o'" by blast
      with new show ?thesis by (intro exI[of _ "root_deletions fs files @ new"]) auto
    next
      case nonempty: False
      show ?thesis
      proof (cases "hdfsExists fs ?path \<noteq> - 1")
        case exists: True
        with True nonempty Cons.prems
        have "partition_create_ops d fs fp n rest (acc @ [Add DELETE_THEN_CREATE ?path]) = Inr (Inr ops)"
          by (simp add: Let_def)
        from Cons.IH[OF this] True nonempty show ?thesis
          by (auto simp: root_or_partition_op_def Add_def)
      next
        case False
        with True nonempty Cons.prems
        have "partition_create_ops d fs fp n rest (acc @ [Add CREATE_DIR ?path]) = Inr (Inr ops)"
          by (simp add: Let_def)
        from Cons.IH[OF this] show ?thesis
          by (auto simp: root_or_partition_op_def Add_def)
      qed
    qed
  qed
qed

lemma partition_create_ops_dcheck:
  "is_overwrite fp \<Longrightarrow> [] \<in> fst ` set parts \<Longrightarrow> n \<noteq> 1
     \<Longrightarrow> partition_create_ops True fs fp n parts acc = Inl DCheckFailed"
proof (induction parts arbitrary: acc)
  case Nil
  then show ?case by simp
next
  case (Cons part rest)
  show ?case
  proof (cases "fst part = []")
    case True
    with Cons.prems show ?thesis by (simp add: Let_def DCHECK_def)
  next
    case False
    with Cons.prems have "[] \<in> fst ` set rest" by auto
    from Cons.IH[OF Cons.prems(1) this Cons.prems(3)] False Cons.prems(1)
    show ?thesis by (simp add: Let_def)
  qed
qed

lemma partition_create_ops_root:
  "is_overwrite fp \<Longrightarrow>
     partition_create_ops d fs fp 1 [([], cnt)] []
       = (case hdfsListDirectory fs (hdfs_base_dir fp @ ''/'') of
            None \<Rightarrow> Inr (Inl (Status_msg (GetHdfsErrorMsg fs ''Could not list directory: ''
                                  (hdfs_base_dir fp @ ''/''))))
          | Some files \<Rightarrow> Inr (Inr (root_deletions fs files)))"
  by (simp add: Let_def DCHECK_def split: option.splits)

lemma FinalizeSuccessfulInsert_unfold:
  assumes "partition_create_ops d fs (finalize_params c) (length (partition_row_counts c))
      (partition_row_counts c) [] = Inr (Inr ops)"
  shows "FinalizeSuccessfulInsert d fs c =
     (case partition_create_failure (partition_create_errors fs ops) of
        Some st \<Rightarrow> Inr (st, emit [Execute ops] c)
      | None \<Rightarrow>
          if move_errors fs (move_ops_of (files_to_move c)) \<noteq> []
          then Inr (first_error_msg ''Error(s) moving partition files.''
                      (move_errors fs (move_ops_of (files_to_move c))),
                    emit [Execute ops, Execute (move_ops_of (files_to_move c))] c)
          else if dir_deletion_errors fs (dir_deletion_ops_of (files_to_move c)) \<noteq> []
          then Inr (first_error_msg ''Error(s) deleting staging directories.''
                      (dir_deletion_errors fs (dir_deletion_ops_of (files_to_move c))),
                    emit [Execute ops, Execute (move_ops_of (files_to_move c)),
                          Execute (dir_deletion_ops_of (files_to_move c))] c)
          else Inr (OK, emit [Execute ops, Execute (move_ops_of (files_to_move c)),
                              Execute (dir_deletion_ops_of (files_to_move c))] c))"
  by (simp add: FinalizeSuccessfulInsert_def assms Let_def emit_def split: option.splits)

lemma partition_create_failure_None:
  "partition_create_failure errs = None \<longleftrightarrow> (\<forall>e \<in> set errs. op (fst e) = CREATE_DIR)"
proof (cases "find (\<lambda>err. op (fst err) \<noteq> CREATE_DIR) errs")
  case None
  then have "\<forall>e \<in> set errs. op (fst e) = CREATE_DIR" by (auto simp: find_None_iff)
  moreover from None have "partition_create_failure errs = None"
    by (simp add: partition_create_failure_def)
  ultimately show ?thesis by simp
next
  case (Some err)
  then have "err \<in> set errs" "op (fst err) \<noteq> CREATE_DIR" by (auto simp: find_Some_iff)
  with Some show ?thesis by (auto simp: partition_create_failure_def)
qed

lemma FinalizeSuccessfulInsert_trace:
  assumes "partition_create_ops d fs (finalize_params c) (length (partition_row_counts c))
      (partition_row_counts c) [] = Inr (Inr ops)"
    and "FinalizeSuccessfulInsert d fs c = Inr (st, c')"
  shows "\<exists>evs. trace c' = trace c @ Execute ops # evs"
proof (cases "partition_create_failure (partition_create_errors fs ops)")
  case (Some e)
  with assms(2) show ?thesis unfolding FinalizeSuccessfulInsert_unfold[OF assms(1)] by auto
next
  case None
  show ?thesis
  proof (cases "move_errors fs (move_ops_of (files_to_move c)) \<noteq> []")
    case True
    with None assms(2) show ?thesis unfolding FinalizeSuccessfulInsert_unfold[OF assms(1)] by auto
  next
    case False
    with None assms(2) show ?thesis unfolding FinalizeSuccessfulInsert_unfold[OF assms(1)]
      by (cases "dir_deletion_errors fs (dir_deletion_ops_of (files_to_move c)) \<noteq> []") auto
  qed
qed

lemma partition_create_failure_Some:
  assumes "\<exists>e \<in> set errs. op (fst e) \<noteq> CREATE_DIR"
  shows "\<exists>err \<in> set errs. op (fst err) \<noteq> CREATE_DIR
     \<and> find (\<lambda>e. op (fst e) \<noteq> CREATE_DIR) errs = Some err
     \<and> partition_create_failure errs =
         Some (Status_msg (''Error(s) deleting partition directories. First error (of ''
                 @ show_nat (length errs) @ '') was: '' @ snd err))"
proof -
  from assms obtain err where f: "find (\<lambda>e. op (fst e) \<noteq> CREATE_DIR) errs = Some err"
    by (cases "find (\<lambda>e. op (fst e) \<noteq> CREATE_DIR) errs") (auto simp: find_None_iff)
  then have "err \<in> set errs" "op (fst err) \<noteq> CREATE_DIR"
    by (auto simp: find_Some_iff)
  with f show ?thesis by (auto simp: partition_create_failure_def)
qed

lemmas finalize_eval_defs = hdfs_example_def overwrite_params_def root_deletions_def Add_def
  DCHECK_def Let_def coord_finalize_def coord_insert_def coord2_def

lemma Wait_again: "has_called_wait c \<Longrightarrow> Wait d ex rpc others fs c = Inr (OK, c)"
  by (simp add: Wait_def)

lemma CancelInternal_flags:
  assumes "CancelInternal d rpc c = Inr c'"
  shows "has_called_wait c' = has_called_wait c" "has_executor c' = has_executor c"
    "returned_all_results c' = returned_all_results c"
    "needs_finalization c' = needs_finalization c"
  using CancelInternal_Inr[OF assms] by (auto split: if_splits)

lemma UpdateStatus_flags:
  assumes "UpdateStatus d rpc st c = Inr (r, c')"
  shows "has_called_wait c' = has_called_wait c" "has_executor c' = has_executor c"
    "returned_all_results c' = returned_all_results c"
    "needs_finalization c' = needs_finalization c"
  using UpdateStatus_Inr(2)[OF assms] by (auto dest: CancelInternal_flags)

lemma Cancel_flags:
  assumes "Cancel d rpc cause c = Inr c'"
  shows "has_called_wait c' = has_called_wait c" "has_executor c' = has_executor c"
    "returned_all_results c' = returned_all_results c"
    "needs_finalization c' = needs_finalization c"
  using Cancel_Inr[OF assms] by (auto dest: CancelInternal_flags)

lemma backend_completed_needs_finalization:
  "backend_completed d n c = Inr (r, c') \<Longrightarrow> needs_finalization c' = needs_finalization c"
  unfolding backend_completed_def
  by (auto simp: bind_r_Inr_iff Let_def split: if_splits)

lemma UpdateFragmentExecStatus_flags:
  assumes "UpdateFragmentExecStatus d rpc p c = Inr (r, c')"
  shows "has_called_wait c' = has_called_wait c \<and> has_executor c' = has_executor c
    \<and> returned_all_results c' = returned_all_results c
    \<and> needs_finalization c' = needs_finalization c"
  using UpdateFragmentExecStatus_Inr[OF assms]
  by (elim disjE exE conjE)
    (simp_all add: UpdateStatus_flags backend_completed_Inr(6,7,8)
      backend_completed_needs_finalization)

lemma run_env_op_flags:
  assumes "run_env_op d e c = Inr c'"
  shows "has_called_wait c' = has_called_wait c \<and> has_executor c' = has_executor c
    \<and> returned_all_results c' = returned_all_results c
    \<and> needs_finalization c' = needs_finalization c"
proof (cases e)
  case (ReportExecStatus p rpc)
  with assms obtain r where "UpdateFragmentExecStatus d rpc p c = Inr (r, c')"
    by (auto simp: bind_r_Inr_iff)
  then show ?thesis by (rule UpdateFragmentExecStatus_flags)
next
  case (CancelQuery cause rpc)
  with assms show ?thesis by (simp add: Cancel_flags)
qed

text \<open>What holds when the waiting loop returns.\<close>

lemma WaitForAllBackends_Inr:
  "WaitForAllBackends d others c = Inr (st, c', rest) \<Longrightarrow>
     st = query_status c' \<and> (ok st \<longrightarrow> num_remaining_backends c' \<le> 0)
     \<and> has_called_wait c' = has_called_wait c \<and> has_executor c' = has_executor c
     \<and> returned_all_results c' = returned_all_results c
     \<and> needs_finalization c' = needs_finalization c"
proof (induction others arbitrary: c)
  case Nil
  then show ?case by (auto split: if_splits)
next
  case (Cons e es)
  show ?case
  proof (cases "0 < num_remaining_backends c \<and> ok (query_status c)")
    case True
    with Cons.prems obtain c1 where 1: "run_env_op d e c = Inr c1"
      and 2: "WaitForAllBackends d es c1 = Inr (st, c', rest)"
      by (auto simp: bind_r_Inr_iff)
    from Cons.IH[OF 2] run_env_op_flags[OF 1] show ?thesis by simp
  next
    case False
    with Cons.prems show ?thesis by auto
  qed
qed

lemma ReportQuerySummary_fields:
  assumes "ReportQuerySummary c = Inr c'"
  shows "has_called_wait c' = has_called_wait c" "query_status c' = query_status c"
    "num_remaining_backends c' = num_remaining_backends c"
    "returned_all_results c' = returned_all_results c"
    "backend_exec_states c' = backend_exec_states c"
  using ReportQuerySummary_Inr[OF assms] by auto

lemma FinalizeSuccessfulInsert_fields:
  assumes "FinalizeSuccessfulInsert d fs c = Inr (r, c')"
  shows "\<exists>evs. c' = emit evs c \<and> ExecutorOpen \<notin> set evs"
proof (cases "partition_create_ops d fs (finalize_params c) (length (partition_row_counts c))
      (partition_row_counts c) []")
  case (Inl e)
  with assms show ?thesis by (simp add: FinalizeSuccessfulInsert_def)
next
  case (Inr x)
  show ?thesis
  proof (cases x)
    case (Inl st)
    with Inr assms have "c' = c" by (simp add: FinalizeSuccessfulInsert_def)
    then show ?thesis by (intro exI[of _ "[]"]) (simp add: emit_def)
  next
    case ops: (Inr ops)
    from assms show ?thesis
      unfolding FinalizeSuccessfulInsert_unfold[OF Inr[unfolded ops]]
      by (auto split: option.splits if_splits)
  qed
qed

lemma emit_emit [simp]: "emit evs (emit evs' c) = emit (evs' @ evs) c"
  by (simp add: emit_def)

lemma FinalizeQuery_fields:
  assumes "FinalizeQuery d fs c = Inr (r, c')"
  shows "\<exists>evs. c' = emit evs c \<and> ExecutorOpen \<notin> set evs"
proof -
  from assms obtain x where
    x: "(if ok (query_status c) then FinalizeSuccessfulInsert d fs c else Inr (query_status c, c)) = Inr x"
    and c': "c' = emit [HdfsDelete ((case staging_dir (finalize_params c) of None \<Rightarrow> [] | Some d \<Rightarrow> d)
                    @ ''/'' @ PrintId (query_id c) ''_'' @ ''/'')] (snd x)"
    unfolding FinalizeQuery_def by (auto simp: bind_r_Inr_iff)
  have "\<exists>evs. snd x = emit evs c \<and> ExecutorOpen \<notin> set evs"
  proof (cases "ok (query_status c)")
    case True
    with x FinalizeSuccessfulInsert_fields[of d fs c "fst x" "snd x"] show ?thesis by simp
  next
    case False
    with x have "snd x = c" by auto
    then show ?thesis by (intro exI[of _ "[]"]) (simp add: emit_def)
  qed
  then obtain evs where "snd x = emit evs c" "ExecutorOpen \<notin> set evs" by blast
  with c' show ?thesis
    by (intro exI[of _ "evs @ [HdfsDelete ((case staging_dir (finalize_params c) of None \<Rightarrow> []
          | Some d \<Rightarrow> d) @ ''/'' @ PrintId (query_id c) ''_'' @ ''/'')]"]) simp
qed

lemma Wait_open_flag:
  assumes "Wait_open d ex rpc others c = Inr (r, c')"
  shows "has_called_wait c' = has_called_wait c"
proof (cases "has_executor c")
  case True
  with assms obtain x where u: "UpdateStatus d rpc (Open ex) (emit [ExecutorOpen] c) = Inr x"
    and r: "c' = snd x \<or> c' = (snd x)\<lparr>files_to_move := hdfs_files_to_move ex,
                 partition_row_counts := num_appended_rows ex,
                 partition_insert_stats := [insert_stats ex]\<rparr>"
    unfolding Wait_open_def by (auto simp: bind_r_Inr_iff split: if_splits)
  from UpdateStatus_flags(1)[of d rpc "Open ex" "emit [ExecutorOpen] c" "fst x" "snd x"] u r
  show ?thesis by auto
next
  case False
  with assms obtain w where w: "WaitForAllBackends d others c = Inr w" and "c' = fst (snd w)"
    unfolding Wait_open_def by (auto simp: bind_r_Inr_iff split: if_splits)
  with WaitForAllBackends_Inr[of d others c "fst w" "fst (snd w)" "snd (snd w)"]
  show ?thesis by simp
qed

lemma Wait_sets_flag:
  assumes "Wait d ex rpc others fs c = Inr (r, c')"
  shows "has_called_wait c'"
proof (cases "has_called_wait c")
  case True
  with assms show ?thesis by (simp add: Wait_def)
next
  case False
  with assms obtain x where o: "Wait_open d ex rpc others (c\<lparr>has_called_wait := True\<rparr>) = Inr x"
    and rest: "(case fst x of
            Some st \<Rightarrow> Inr (st, snd x)
          | None \<Rightarrow>
              bind_r (if needs_finalization (snd x) then FinalizeQuery d fs (snd x)
                      else Inr (OK, snd x)) (\<lambda>f.
                if \<not> ok (fst f) then Inr f
                else if stmt_type (snd f) = DML
                then bind_r (ReportQuerySummary (emit [InsertStatsInfo] (snd f)))
                       (\<lambda>c'. Inr (OK, c'))
                else Inr (OK, snd f))) = Inr (r, c')"
    unfolding Wait_def by (auto simp: bind_r_Inr_iff)
  from Wait_open_flag[of d ex rpc others _ "fst x" "snd x"] o
  have 1: "has_called_wait (snd x)" by simp
  show ?thesis
  proof (cases "fst x")
    case (Some st)
    with rest 1 show ?thesis by auto
  next
    case None
    with rest obtain f where f: "(if needs_finalization (snd x) then FinalizeQuery d fs (snd x)
                      else Inr (OK, snd x)) = Inr f"
      and fin: "(if \<not> ok (fst f) then Inr f
                else if stmt_type (snd f) = DML
                then bind_r (ReportQuerySummary (emit [InsertStatsInfo] (snd f)))
                       (\<lambda>c'. Inr (OK, c'))
                else Inr (OK, snd f)) = Inr (r, c')"
      by (auto simp: bind_r_Inr_iff)
    from f 1 FinalizeQuery_fields[of d fs "snd x" "fst f" "snd f"]
    have 2: "has_called_wait (snd f)" by (auto split: if_splits)
    from fin 2 show ?thesis
      by (auto simp: bind_r_Inr_iff split: if_splits dest: ReportQuerySummary_fields(1))
  qed
qed

lemma Wait_calls_again:
  "has_called_wait c \<Longrightarrow> Wait_calls d calls c = Inr (replicate (length calls) OK, c)"
  by (induction calls) (simp_all add: Wait_again)


text \<open>Only Wait opens the executor.\<close>

lemma cancel_exec_state_opens:
  "ExecutorOpen \<notin> set (snd (cancel_exec_state q out i es))"
  by (simp add: cancel_exec_state_def Let_def split: CancelRpcOutcome.splits)

lemma cancel_loop_opens: "ExecutorOpen \<notin> set (snd (cancel_loop q rpc i xs))"
proof (induction xs arbitrary: i)
  case Nil
  then show ?case by simp
next
  case (Cons x xs)
  from Cons.IH[of "Suc i"] show ?case
    by (cases x)
      (simp_all add: cancel_loop_None cancel_loop_Some cancel_exec_state_opens
        del: cancel_loop.simps)
qed

lemma opens_emit: "ExecutorOpen \<notin> set evs \<Longrightarrow> opens (emit evs c) = opens c"
  by (simp add: opens_def count_list_0_iff)

lemma opens_cong: "trace c' = trace c \<Longrightarrow> opens c' = opens c"
  by (simp add: opens_def)

lemma CancelInternal_opens:
  assumes "CancelInternal d rpc c = Inr c'"
  shows "opens c' = opens c"
proof -
  from CancelInternal_Inr[OF assms] obtain evs where
    c': "c' = emit evs (CancelRemoteFragments rpc (if has_executor c then emit [ExecutorCancel] c else c))"
    and evs: "set evs \<subseteq> {QuerySummary}"
    by blast
  from evs have "ExecutorOpen \<notin> set evs" by auto
  then show ?thesis unfolding c'
    by (simp add: opens_def count_list_0_iff cancel_loop_opens)
qed

lemma UpdateStatus_opens:
  assumes "UpdateStatus d rpc st c = Inr (r, c')"
  shows "opens c' = opens c"
  using UpdateStatus_Inr(2)[OF assms] by (auto dest!: CancelInternal_opens simp: opens_def)

lemma Cancel_opens:
  assumes "Cancel d rpc cause c = Inr c'"
  shows "opens c' = opens c"
  using Cancel_Inr[OF assms] by (auto dest!: CancelInternal_opens simp: opens_def)

lemma backend_completed_opens:
  assumes "backend_completed d n c = Inr (r, c')"
  shows "opens c' = opens c"
  using assms unfolding backend_completed_def
  by (auto simp: bind_r_Inr_iff Let_def opens_def split: if_splits)

lemma UpdateFragmentExecStatus_opens:
  assumes "UpdateFragmentExecStatus d rpc p c = Inr (r, c')"
  shows "opens c' = opens c"
proof -
  have a: "opens (apply_report p n es c) = opens c" for n es
    by (simp add: opens_def)
  from UpdateFragmentExecStatus_Inr[OF assms] show ?thesis
    by (elim disjE exE conjE)
      (simp_all add: a UpdateStatus_opens[where c' = c'] backend_completed_opens[where c' = c'])
qed

lemma run_env_op_opens:
  assumes "run_env_op d e c = Inr c'"
  shows "opens c' = opens c"
proof (cases e)
  case (ReportExecStatus p rpc)
  with assms obtain r where "UpdateFragmentExecStatus d rpc p c = Inr (r, c')"
    by (auto simp: bind_r_Inr_iff)
  then show ?thesis by (rule UpdateFragmentExecStatus_opens)
next
  case (CancelQuery cause rpc)
  with assms show ?thesis by (simp add: Cancel_opens)
qed

lemma WaitForAllBackends_opens:
  "WaitForAllBackends d others c = Inr (st, c', rest) \<Longrightarrow> opens c' = opens c"
proof (induction others arbitrary: c)
  case Nil
  then show ?case by (auto split: if_splits)
next
  case (Cons e es)
  show ?case
  proof (cases "0 < num_remaining_backends c \<and> ok (query_status c)")
    case True
    with Cons.prems obtain c1 where 1: "run_env_op d e c = Inr c1"
      and 2: "WaitForAllBackends d es c1 = Inr (st, c', rest)"
      by (auto simp: bind_r_Inr_iff)
    from Cons.IH[OF 2] run_env_op_opens[OF 1] show ?thesis by simp
  next
    case False
    with Cons.prems show ?thesis by auto
  qed
qed

lemma Wait_open_opens:
  assumes "Wait_open d ex rpc others c = Inr (r, c')"
  shows "opens c' = opens c + (if has_executor c then 1 else 0)"
proof (cases "has_executor c")
  case True
  with assms obtain x where u: "UpdateStatus d rpc (Open ex) (emit [ExecutorOpen] c) = Inr x"
    and r: "c' = snd x \<or> c' = (snd x)\<lparr>files_to_move := hdfs_files_to_move ex,
                 partition_row_counts := num_appended_rows ex,
                 partition_insert_stats := [insert_stats ex]\<rparr>"
    unfolding Wait_open_def by (auto simp: bind_r_Inr_iff split: if_splits)
  from UpdateStatus_opens[of d rpc "Open ex" "emit [ExecutorOpen] c" "fst x" "snd x"] u
  have "opens (snd x) = opens c + 1" by (simp add: opens_def)
  with r True show ?thesis by (auto simp: opens_def)
next
  case False
  with assms obtain w where w: "WaitForAllBackends d others c = Inr w" and "c' = fst (snd w)"
    unfolding Wait_open_def by (auto simp: bind_r_Inr_iff split: if_splits)
  with WaitForAllBackends_opens[of d others c "fst w" "fst (snd w)" "snd (snd w)"] False
  show ?thesis by simp
qed

lemma Wait_opens:
  assumes "Wait d ex rpc others fs c = Inr (r, c')"
  shows "opens c' = opens c + (if \<not> has_called_wait c \<and> has_executor c then 1 else 0)"
proof (cases "has_called_wait c")
  case True
  with assms show ?thesis by (simp add: Wait_def)
next
  case False
  with assms obtain x where o: "Wait_open d ex rpc others (c\<lparr>has_called_wait := True\<rparr>) = Inr x"
    and rest: "(case fst x of
            Some st \<Rightarrow> Inr (st, snd x)
          | None \<Rightarrow>
              bind_r (if needs_finalization (snd x) then FinalizeQuery d fs (snd x)
                      else Inr (OK, snd x)) (\<lambda>f.
                if \<not> ok (fst f) then Inr f
                else if stmt_type (snd f) = DML
                then bind_r (ReportQuerySummary (emit [InsertStatsInfo] (snd f)))
                       (\<lambda>c'. Inr (OK, c'))
                else Inr (OK, snd f))) = Inr (r, c')"
    unfolding Wait_def by (auto simp: bind_r_Inr_iff)
  from Wait_open_opens[of d ex rpc others _ "fst x" "snd x"] o
  have 1: "opens (snd x) = opens c + (if has_executor c then 1 else 0)" by (simp add: opens_def)
  have 2: "opens c' = opens (snd x)"
  proof (cases "fst x")
    case (Some st)
    with rest show ?thesis by auto
  next
    case None
    with rest obtain f where f: "(if needs_finalization (snd x) then FinalizeQuery d fs (snd x)
                      else Inr (OK, snd x)) = Inr f"
      and fin: "(if \<not> ok (fst f) then Inr f
                else if stmt_type (snd f) = DML
                then bind_r (ReportQuerySummary (emit [InsertStatsInfo] (snd f)))
                       (\<lambda>c'. Inr (OK, c'))
                else Inr (OK, snd f)) = Inr (r, c')"
      by (auto simp: bind_r_Inr_iff)
    from f FinalizeQuery_fields[of d fs "snd x" "fst f" "snd f"]
    have 3: "opens (snd f) = opens (snd x)" by (auto split: if_splits simp: opens_emit)
    have "opens c' = opens (snd f)"
    proof (cases "ok (fst f) \<and> stmt_type (snd f) = DML")
      case True
      with fin obtain c'' where "ReportQuerySummary (emit [InsertStatsInfo] (snd f)) = Inr c''"
        "c' = c''" by (auto simp: bind_r_Inr_iff)
      with ReportQuerySummary_Inr[of "emit [InsertStatsInfo] (snd f)" c'] show ?thesis
        by (auto simp: opens_def count_list_0_iff)
    next
      case False
      with fin show ?thesis by (auto split: if_splits)
    qed
    with 3 show ?thesis by simp
  qed
  from 1 2 False show ?thesis by simp
qed

lemma cancel_loop_still_running:
  "map still_running (fst (cancel_loop q rpc i xs)) = map still_running xs"
proof (induction xs arbitrary: i)
  case Nil
  then show ?case by simp
next
  case (Cons x xs)
  from Cons.IH[of "Suc i"] show ?case
    by (cases x) (simp_all add: cancel_loop_None cancel_loop_Some del: cancel_loop.simps)
qed

lemma running_simps [simp]:
  "running (emit evs c) = running c"
  "running (CancelRemoteFragments rpc c) = running c"
  "running (c\<lparr>query_status := st\<rparr>) = running c"
  "running (c\<lparr>returned_all_results := b\<rparr>) = running c"
  by (simp_all add: running_def cancel_loop_still_running)















lemma num_not_done_returned_all_results [simp]:
  "num_not_done (c\<lparr>returned_all_results := b\<rparr>) = num_not_done c"
  by (simp add: num_not_done_def)

lemma counts_agree_simps [simp]:
  "counts_agree (emit evs c) = counts_agree c"
  "counts_agree (CancelRemoteFragments rpc c) = counts_agree c"
  "counts_agree (c\<lparr>returned_all_results := b\<rparr>) = counts_agree c"
  by (simp_all add: counts_agree_def)







section \<open>C1: the number of remaining backends\<close>

text \<open>
  Claim C1 says that \<^verbatim>\<open>num_remaining_backends_\<close> always equals the number of exec
  states whose \<^verbatim>\<open>done\<close> is false. The source does not keep that: a report that
  carries an error status sets \<^verbatim>\<open>done\<close> as reported and then hands the error to
  \<^verbatim>\<open>UpdateStatus\<close> and returns (lines 1093-1096), without touching the count. The
  counterexample is the final report of backend 0 of a query with two running
  backends, with an error status: afterwards one exec state is not done and the
  count is still 2.
\<close>

theorem num_remaining_backends_counterexample:
  "remaining_and_not_done (Inr (OK, coord2)) = Some (2, 2)
   \<and> remaining_and_not_done
       (UpdateFragmentExecStatus True rpc_ok (report 0 TStatus_parse_error True None) coord2)
     = Some (2, 1)"
  by (simp add: report_eval_defs eval_defs)

text \<open>
  Claim C1, amended. \<^verbatim>\<open>num_remaining_backends_\<close> never increases: a status report
  that returns leaves it as it was or takes one off, \<^verbatim>\<open>Cancel\<close> leaves it and the
  number of exec states that are not done unchanged, and no sequence of reports and
  \<^verbatim>\<open>Cancel\<close> calls increases it. A report for a known backend sets \<^verbatim>\<open>done\<close> of its
  exec state to the reported value, and the count goes down, by exactly one, when
  and only when the report has \<^verbatim>\<open>done\<close> set and its status does not abort the query
  (it is OK, or CANCELLED after all results were returned). When the count equals
  the number of exec states that are not done, a report that does not abort the
  query, for a backend that is not done, keeps them equal.
\<close>

theorem num_remaining_backends_counts_completions:
  "(\<forall>r c'. UpdateFragmentExecStatus dchecks rpc p c = Inr (r, c') \<longrightarrow>
      num_remaining_backends c' \<le> num_remaining_backends c
      \<and> (0 \<le> rep_backend_num p \<and> rep_backend_num p < int (length (backend_exec_states c)) \<longrightarrow>
           (\<exists>es'. backend_exec_states c' ! nat (rep_backend_num p) = Some es'
                 \<and> is_done es' = rep_done p)
           \<and> num_remaining_backends c' =
               (if rep_done p \<and> \<not> aborts_query (Status_of_TStatus (rep_status p)) c
                then num_remaining_backends c - 1 else num_remaining_backends c)
           \<and> (\<not> aborts_query (Status_of_TStatus (rep_status p)) c
                \<and> num_remaining_backends c = int (num_not_done c)
                \<and> (\<exists>es. backend_exec_states c ! nat (rep_backend_num p) = Some es \<and> \<not> is_done es)
              \<longrightarrow> num_remaining_backends c' = int (num_not_done c'))))
   \<and> (\<forall>c'. Cancel dchecks rpc cause c = Inr c' \<longrightarrow>
         num_remaining_backends c' = num_remaining_backends c \<and> num_not_done c' = num_not_done c)
   \<and> (\<forall>c'. run_env_ops dchecks ops c = Inr c' \<longrightarrow>
         num_remaining_backends c' \<le> num_remaining_backends c)"
proof (intro conjI allI impI)
  fix r c' assume "UpdateFragmentExecStatus dchecks rpc p c = Inr (r, c')"
  then show "num_remaining_backends c' \<le> num_remaining_backends c"
    by (rule UpdateFragmentExecStatus_remaining_le)
next
  fix r c'
  assume u: "UpdateFragmentExecStatus dchecks rpc p c = Inr (r, c')"
    and rng: "0 \<le> rep_backend_num p \<and> rep_backend_num p < int (length (backend_exec_states c))"
  let ?n = "nat (rep_backend_num p)"
  from rng have n: "?n < length (backend_exec_states c)" by auto
  from UpdateFragmentExecStatus_Inr[OF u] rng n
  show "\<exists>es'. backend_exec_states c' ! ?n = Some es' \<and> is_done es' = rep_done p"
    by (auto dest!: UpdateStatus_Inr(2) CancelInternal_Inr backend_completed_Inr(5)
        simp: cancel_loop_nth)
next
  fix r c'
  assume u: "UpdateFragmentExecStatus dchecks rpc p c = Inr (r, c')"
    and rng: "0 \<le> rep_backend_num p \<and> rep_backend_num p < int (length (backend_exec_states c))"
  from UpdateFragmentExecStatus_Inr[OF u] rng
  show "num_remaining_backends c' =
          (if rep_done p \<and> \<not> aborts_query (Status_of_TStatus (rep_status p)) c
           then num_remaining_backends c - 1 else num_remaining_backends c)"
    by (auto dest: UpdateStatus_counts(1) backend_completed_Inr(3))
next
  fix r c'
  assume u: "UpdateFragmentExecStatus dchecks rpc p c = Inr (r, c')"
    and rng: "0 \<le> rep_backend_num p \<and> rep_backend_num p < int (length (backend_exec_states c))"
    and h: "\<not> aborts_query (Status_of_TStatus (rep_status p)) c
                \<and> num_remaining_backends c = int (num_not_done c)
                \<and> (\<exists>es. backend_exec_states c ! nat (rep_backend_num p) = Some es \<and> \<not> is_done es)"
  let ?n = "nat (rep_backend_num p)"
  from rng have n: "?n < length (backend_exec_states c)" by auto
  from h obtain es where es: "backend_exec_states c ! ?n = Some es" "\<not> is_done es" by auto
  note a = num_not_done_apply_report[OF n es(1), of p]
  from UpdateFragmentExecStatus_Inr[OF u] rng h es
  consider (done_) "rep_done p" "backend_completed dchecks ?n (apply_report p ?n es c) = Inr (OK, c')"
    | (running) "\<not> rep_done p" "c' = apply_report p ?n es c"
    by auto
  then show "num_remaining_backends c' = int (num_not_done c')"
  proof cases
    case done_
    from backend_completed_Inr(3)[OF done_(2)] num_not_done_backend_completed[OF done_(2)]
      a es(2) done_(1) h
    show ?thesis by simp
  next
    case running
    with a es(2) h show ?thesis by simp
  qed
next
  fix c' assume "Cancel dchecks rpc cause c = Inr c'"
  then show "num_remaining_backends c' = num_remaining_backends c" by (rule Cancel_counts(1))
next
  fix c' assume "Cancel dchecks rpc cause c = Inr c'"
  then show "num_not_done c' = num_not_done c" by (rule Cancel_counts(2))
next
  fix c' assume "run_env_ops dchecks ops c = Inr c'"
  then show "num_remaining_backends c' \<le> num_remaining_backends c"
    by (rule run_env_ops_remaining_le)
qed

theorem num_remaining_backends_counts_completions_witness:
  "(\<exists>c'. UpdateFragmentExecStatus True rpc_ok (report 0 TStatus_OK True None) coord2 = Inr (OK, c')
       \<and> num_remaining_backends c' = 1 \<and> num_remaining_backends c' = int (num_not_done c'))
   \<and> (\<exists>c'. UpdateFragmentExecStatus True rpc_ok (report 0 TStatus_parse_error True None) coord2
               = Inr (OK, c')
         \<and> num_remaining_backends c' = 2)
   \<and> (\<exists>c'. Cancel True rpc_ok None coord2 = Inr c' \<and> num_remaining_backends c' = 2
         \<and> num_not_done c' = 2)"
proof -
  obtain c1 where c1: "UpdateFragmentExecStatus True rpc_ok (report 0 TStatus_OK True None) coord2
      = Inr (OK, c1)"
    by (simp add: report_eval_defs eval_defs)
  obtain c2 where c2: "UpdateFragmentExecStatus True rpc_ok (report 0 TStatus_parse_error True None)
      coord2 = Inr (OK, c2)"
    by (simp add: report_eval_defs eval_defs)
  obtain c3 where c3: "Cancel True rpc_ok None coord2 = Inr c3"
    by (simp add: eval_defs)
  have rng: "0 \<le> rep_backend_num (report 0 TStatus_OK True None)
      \<and> rep_backend_num (report 0 TStatus_OK True None) < int (length (backend_exec_states coord2))"
    "0 \<le> rep_backend_num (report 0 TStatus_parse_error True None)
      \<and> rep_backend_num (report 0 TStatus_parse_error True None)
          < int (length (backend_exec_states coord2))"
    by (simp_all add: report_def coord2_def)
  have inv: "\<not> aborts_query (Status_of_TStatus (rep_status (report 0 TStatus_OK True None))) coord2
      \<and> num_remaining_backends coord2 = int (num_not_done coord2)
      \<and> (\<exists>es. backend_exec_states coord2 ! nat (rep_backend_num (report 0 TStatus_OK True None))
                = Some es \<and> \<not> is_done es)"
    by (simp add: report_eval_defs coord2_def es_running_def)
  have ab: "aborts_query (Status_of_TStatus (rep_status (report 0 TStatus_parse_error True None)))
      coord2" "rep_done (report 0 TStatus_OK True None)" "num_remaining_backends coord2 = 2"
    "num_not_done coord2 = 2"
    by (simp_all add: report_eval_defs coord2_def es_running_def)
  note t1 = num_remaining_backends_counts_completions[of True rpc_ok "report 0 TStatus_OK True None"
      coord2 None "[]", THEN conjunct1, rule_format, OF c1, THEN conjunct2, rule_format, OF rng(1)]
  note t1a = t1[THEN conjunct2, THEN conjunct1]
  note t1b = t1[THEN conjunct2, THEN conjunct2, rule_format, OF inv]
  note t2 = num_remaining_backends_counts_completions[of True rpc_ok
      "report 0 TStatus_parse_error True None" coord2 None "[]", THEN conjunct1, rule_format, OF c2,
      THEN conjunct2, rule_format, OF rng(2), THEN conjunct2, THEN conjunct1]
  note t3 = num_remaining_backends_counts_completions[of True rpc_ok
      "report 0 TStatus_OK True None" coord2 None "[]", THEN conjunct2, THEN conjunct1, rule_format,
      OF c3]
  from t1a t1b t2 t3 c1 c2 c3 inv ab show ?thesis by simp
qed

section \<open>C2: the status of an exec state never goes back to OK\<close>

text \<open>
  Claim C2. Between the state of a query before and after \<^verbatim>\<open>CancelRemoteFragments\<close>,
  \<^verbatim>\<open>UpdateStatus\<close>, and any sequence of status reports and \<^verbatim>\<open>Cancel\<close> calls, no exec
  state is created or destroyed and an exec state whose status is OK afterwards had
  the status OK before. In particular: when \<^verbatim>\<open>Cancel\<close> has cancelled a backend that
  was initiated, not done and OK, its status is CANCELLED, and a final report with
  the status OK that arrives afterwards is processed: it sets \<^verbatim>\<open>done\<close>, takes one
  off \<^verbatim>\<open>num_remaining_backends_\<close>, and leaves the status of the exec state and the
  query status as they were. (In a build that checks it, the \<^verbatim>\<open>DCHECK\<close> of the count
  is assumed to hold.)
\<close>

theorem exec_state_status_never_back_to_OK:
  "status_monotonic c (CancelRemoteFragments rpc c)
   \<and> (\<forall>r c'. UpdateStatus dchecks rpc st c = Inr (r, c') \<longrightarrow> status_monotonic c c')
   \<and> (\<forall>c'. run_env_ops dchecks ops c = Inr c' \<longrightarrow> status_monotonic c c')
   \<and> (\<forall>c1 es. ok (query_status c) \<and> Cancel dchecks rpc cause c = Inr c1
         \<and> n < length (backend_exec_states c) \<and> backend_exec_states c ! n = Some es
         \<and> ok (status es) \<and> initiated es \<and> \<not> is_done es
         \<and> rep_backend_num p = int n \<and> status_code (rep_status p) = TStatusCode_OK \<and> rep_done p
         \<and> (dchecks \<longrightarrow> 0 < num_remaining_backends c) \<longrightarrow>
       (\<exists>es1 es2 c2. backend_exec_states c1 ! n = Some es1 \<and> IsCancelled (status es1)
          \<and> UpdateFragmentExecStatus dchecks rpc' p c1 = Inr (OK, c2)
          \<and> backend_exec_states c2 ! n = Some es2
          \<and> is_done es2 \<and> status es2 = status es1 \<and> IsCancelled (status es2)
          \<and> num_remaining_backends c2 = num_remaining_backends c1 - 1
          \<and> query_status c2 = query_status c1))"
proof (intro conjI allI impI)
  show "status_monotonic c (CancelRemoteFragments rpc c)"
    by (rule status_monotonic_CancelRemoteFragments)
next
  fix r c' assume "UpdateStatus dchecks rpc st c = Inr (r, c')"
  then show "status_monotonic c c'" by (rule status_monotonic_UpdateStatus)
next
  fix c' assume "run_env_ops dchecks ops c = Inr c'"
  then show "status_monotonic c c'" by (rule status_monotonic_run_env_ops)
next
  fix c1 es
  assume h: "ok (query_status c) \<and> Cancel dchecks rpc cause c = Inr c1
         \<and> n < length (backend_exec_states c) \<and> backend_exec_states c ! n = Some es
         \<and> ok (status es) \<and> initiated es \<and> \<not> is_done es
         \<and> rep_backend_num p = int n \<and> status_code (rep_status p) = TStatusCode_OK \<and> rep_done p
         \<and> (dchecks \<longrightarrow> 0 < num_remaining_backends c)"
  let ?es1 = "fst (cancel_exec_state (query_id c) (rpc n) n es)"
  from h have n1: "backend_exec_states c1 ! n = Some ?es1"
    by (auto intro: Cancel_state_cancelled)
  from h have canc: "IsCancelled (status ?es1)" by (simp add: cancel_exec_state_cancelled(1))
  from h have len: "n < length (backend_exec_states c1)"
    using status_monotonic_Cancel[of dchecks rpc cause c c1]
    by (auto simp: status_monotonic_def dest: list_all2_lengthD)
  from h have rem: "dchecks \<longrightarrow> 0 < num_remaining_backends c1"
    by (auto simp: Cancel_counts(1))
  from UpdateFragmentExecStatus_final_OK[OF len n1 _ _ _ rem, of p rpc'] h
  obtain c2 where c2: "UpdateFragmentExecStatus dchecks rpc' p c1 = Inr (OK, c2)"
    "backend_exec_states c2 ! n = Some ((update_exec_state p ?es1)\<lparr>stopwatch_running := False\<rparr>)"
    "num_remaining_backends c2 = num_remaining_backends c1 - 1"
    "query_status c2 = query_status c1"
    by auto
  from h have st2: "status ((update_exec_state p ?es1)\<lparr>stopwatch_running := False\<rparr>) = status ?es1"
    by (simp add: update_exec_state_status)
  from h have "is_done ((update_exec_state p ?es1)\<lparr>stopwatch_running := False\<rparr>)" by simp
  with n1 canc c2 st2
  show "\<exists>es1 es2 c2. backend_exec_states c1 ! n = Some es1 \<and> IsCancelled (status es1)
          \<and> UpdateFragmentExecStatus dchecks rpc' p c1 = Inr (OK, c2)
          \<and> backend_exec_states c2 ! n = Some es2
          \<and> is_done es2 \<and> status es2 = status es1 \<and> IsCancelled (status es2)
          \<and> num_remaining_backends c2 = num_remaining_backends c1 - 1
          \<and> query_status c2 = query_status c1"
    by auto
qed


theorem exec_state_status_never_back_to_OK_witness:
  "status_monotonic coord2 (CancelRemoteFragments rpc_ok coord2)
   \<and> (\<exists>c1 es1 es2 c2. Cancel True rpc_ok None coord2 = Inr c1
         \<and> backend_exec_states c1 ! 0 = Some es1 \<and> IsCancelled (status es1)
         \<and> UpdateFragmentExecStatus True rpc_ok (report 0 TStatus_OK True None) c1 = Inr (OK, c2)
         \<and> backend_exec_states c2 ! 0 = Some es2
         \<and> is_done es2 \<and> status es2 = status es1 \<and> IsCancelled (status es2)
         \<and> num_remaining_backends c2 = num_remaining_backends c1 - 1
         \<and> query_status c2 = query_status c1)"
proof -
  obtain c1 where c1: "Cancel True rpc_ok None coord2 = Inr c1"
    by (simp add: eval_defs)
  have h: "ok (query_status coord2) \<and> Cancel True rpc_ok None coord2 = Inr c1
         \<and> 0 < length (backend_exec_states coord2)
         \<and> backend_exec_states coord2 ! 0 = Some (es_running 0)
         \<and> ok (status (es_running 0)) \<and> initiated (es_running 0) \<and> \<not> is_done (es_running 0)
         \<and> rep_backend_num (report 0 TStatus_OK True None) = int 0
         \<and> status_code (rep_status (report 0 TStatus_OK True None)) = TStatusCode_OK
         \<and> rep_done (report 0 TStatus_OK True None)
         \<and> (True \<longrightarrow> 0 < num_remaining_backends coord2)"
    using c1 by (simp add: coord2_def es_running_def report_def TStatus_OK_def)
  note t = exec_state_status_never_back_to_OK[of coord2 rpc_ok True CANCELLED "[]" None 0
      "report 0 TStatus_OK True None" rpc_ok]
  from t[THEN conjunct1] t[THEN conjunct2, THEN conjunct2, THEN conjunct2, rule_format, OF h] c1
  show ?thesis by blast
qed

section \<open>C3: the query status is error-sticky\<close>

text \<open>
  Claim C3. Once \<^verbatim>\<open>query_status_\<close> is not OK, \<^verbatim>\<open>UpdateStatus\<close> and \<^verbatim>\<open>Cancel\<close> return
  without any effect, and no sequence of status reports and \<^verbatim>\<open>Cancel\<close> calls changes
  it. While it is OK, the first error that \<^verbatim>\<open>UpdateStatus\<close> is given, or the cause
  of the first \<^verbatim>\<open>Cancel\<close> (\<^verbatim>\<open>CANCELLED\<close> when there is none), becomes the query
  status.
\<close>

theorem query_status_error_sticky:
  "(\<not> ok (query_status c) \<longrightarrow>
      UpdateStatus dchecks rpc st c = Inr (query_status c, c)
      \<and> Cancel dchecks rpc cause c = Inr c
      \<and> (\<forall>c'. run_env_ops dchecks ops c = Inr c' \<longrightarrow> query_status c' = query_status c))
   \<and> (ok (query_status c) \<longrightarrow>
        (\<forall>r c'. UpdateStatus dchecks rpc st c = Inr (r, c') \<longrightarrow>
           r = query_status c'
           \<and> query_status c' =
               (if ok st \<or> (returned_all_results c \<and> IsCancelled st) then OK else st))
        \<and> (\<forall>c'. Cancel dchecks rpc cause c = Inr c' \<longrightarrow>
             \<not> ok (query_status c')
             \<and> query_status c' =
                 (case cause of None \<Rightarrow> CANCELLED | Some s \<Rightarrow> if ok s then CANCELLED else s)))"
proof (intro conjI impI allI)
  assume "\<not> ok (query_status c)"
  then show "UpdateStatus dchecks rpc st c = Inr (query_status c, c)"
    by (simp add: UpdateStatus_def)
next
  assume "\<not> ok (query_status c)"
  then show "Cancel dchecks rpc cause c = Inr c" by (simp add: Cancel_def)
next
  fix c' assume "\<not> ok (query_status c)" "run_env_ops dchecks ops c = Inr c'"
  then show "query_status c' = query_status c"
    by (simp add: run_env_ops_query_status_sticky)
next
  fix r c' assume "ok (query_status c)" "UpdateStatus dchecks rpc st c = Inr (r, c')"
  then show "r = query_status c'" by (simp add: UpdateStatus_Inr(1))
next
  fix r c' assume h: "ok (query_status c)" "UpdateStatus dchecks rpc st c = Inr (r, c')"
  from UpdateStatus_query_status[OF h(2)] h(1)
  show "query_status c' = (if ok st \<or> (returned_all_results c \<and> IsCancelled st) then OK else st)"
    by (cases "query_status c") auto
next
  fix c' assume "ok (query_status c)" "Cancel dchecks rpc cause c = Inr c'"
  then show "\<not> ok (query_status c')" by (simp add: Cancel_not_ok)
next
  fix c' assume h: "ok (query_status c)" "Cancel dchecks rpc cause c = Inr c'"
  from Cancel_query_status[OF h(2)] h(1)
  show "query_status c' = (case cause of None \<Rightarrow> CANCELLED | Some s \<Rightarrow> if ok s then CANCELLED else s)"
    by (auto split: option.splits)
qed

theorem query_status_error_sticky_witness:
  "UpdateStatus True rpc_ok CANCELLED (coord2\<lparr>query_status := parse_error\<rparr>)
     = Inr (parse_error, coord2\<lparr>query_status := parse_error\<rparr>)
   \<and> Cancel True rpc_ok None (coord2\<lparr>query_status := parse_error\<rparr>)
     = Inr (coord2\<lparr>query_status := parse_error\<rparr>)
   \<and> (\<exists>c'. Cancel True rpc_ok (Some parse_error) coord2 = Inr c' \<and> query_status c' = parse_error)
   \<and> (\<exists>c'. Cancel True rpc_ok None coord2 = Inr c' \<and> query_status c' = CANCELLED)
   \<and> (\<exists>r c'. UpdateStatus True rpc_ok parse_error coord2 = Inr (r, c') \<and> r = parse_error
         \<and> query_status c' = parse_error)"
proof -
  have n: "\<not> ok (query_status (coord2\<lparr>query_status := parse_error\<rparr>))"
    "query_status (coord2\<lparr>query_status := parse_error\<rparr>) = parse_error"
    by (simp_all add: parse_error_def)
  have o: "ok (query_status coord2)" by (simp add: coord2_def)
  have p: "\<not> ok parse_error" "\<not> returned_all_results coord2"
    by (simp_all add: parse_error_def coord2_def)
  obtain c1 where c1: "Cancel True rpc_ok (Some parse_error) coord2 = Inr c1"
    by (simp add: eval_defs)
  obtain c2 where c2: "Cancel True rpc_ok None coord2 = Inr c2"
    by (simp add: eval_defs)
  obtain r3 c3 where c3: "UpdateStatus True rpc_ok parse_error coord2 = Inr (r3, c3)"
    by (simp add: eval_defs)
  note a = query_status_error_sticky[of "coord2\<lparr>query_status := parse_error\<rparr>" True rpc_ok
      CANCELLED None "[]", THEN conjunct1, rule_format, OF n(1)]
  note b = query_status_error_sticky[of coord2 True rpc_ok parse_error "Some parse_error",
      THEN conjunct2, rule_format, OF o]
  note b1 = b[THEN conjunct2, rule_format, OF c1]
  note b3 = b[THEN conjunct1, rule_format, OF c3]
  note b2 = query_status_error_sticky[of coord2 True rpc_ok parse_error None,
      THEN conjunct2, rule_format, OF o, THEN conjunct2, rule_format, OF c2]
  from a b1 b2 b3 c1 c2 c3 n(2) p show ?thesis by simp
qed

section \<open>C4: repeated calls of Wait\<close>

text \<open>
  Claim C4 says that every call of \<^verbatim>\<open>Wait\<close> returns the same status. The source
  returns OK from every call after the first (line 645), whatever the first call
  returned. The counterexample is a query without a local fragment whose backend 1
  reports an error while the first \<^verbatim>\<open>Wait\<close> waits: the first call returns the
  error, the second returns OK.
\<close>

theorem Wait_repeated_returns_OK_counterexample:
  "statuses_of
     (Wait_calls True
        [(executor_example, rpc_ok,
          [ReportExecStatus (report 1 TStatus_parse_error True None) rpc_ok], hdfs_example []),
         (executor_example, rpc_ok, [], hdfs_example [])]
        coord_remote)
   = Some [parse_error, OK]"
  by (simp add: statuses_of_def Wait_def Wait_open_def coord_remote_def report_eval_defs eval_defs
      executor_example_def)

text \<open>
  Claim C4, amended. A call of \<^verbatim>\<open>Wait\<close> that finds \<^verbatim>\<open>has_called_wait_\<close> set returns OK
  and changes nothing. A call that returns leaves \<^verbatim>\<open>has_called_wait_\<close> set, so each
  of any number of later calls returns OK and leaves the state and the trace of
  effects as the first call left them: the effects of \<^verbatim>\<open>Wait\<close> happen in the first
  call only. In particular the local executor, when there is one, is opened
  exactly once, by the first call.
\<close>

theorem Wait_effects_once:
  "(has_called_wait c \<longrightarrow> Wait dchecks ex rpc others fs c = Inr (OK, c))
   \<and> (\<forall>r c1. Wait dchecks ex rpc others fs c = Inr (r, c1) \<longrightarrow>
         has_called_wait c1
         \<and> Wait_calls dchecks calls c1 = Inr (replicate (length calls) OK, c1)
         \<and> opens c1 = opens c + (if \<not> has_called_wait c \<and> has_executor c then 1 else 0))"
proof (intro conjI allI impI)
  assume "has_called_wait c"
  then show "Wait dchecks ex rpc others fs c = Inr (OK, c)" by (rule Wait_again)
next
  fix r c1 assume w: "Wait dchecks ex rpc others fs c = Inr (r, c1)"
  then show "has_called_wait c1" by (rule Wait_sets_flag)
  then show "Wait_calls dchecks calls c1 = Inr (replicate (length calls) OK, c1)"
    by (rule Wait_calls_again)
  from w show "opens c1 = opens c + (if \<not> has_called_wait c \<and> has_executor c then 1 else 0)"
    by (rule Wait_opens)
qed

theorem Wait_effects_once_witness:
  "(\<exists>r c1. Wait True executor_example rpc_ok [] (hdfs_example []) (coord2\<lparr>has_called_wait := False\<rparr>)
             = Inr (r, c1)
        \<and> has_called_wait c1
        \<and> Wait_calls True [(executor_example, rpc_ok, [], hdfs_example []),
                            (executor_example, rpc_ok, [], hdfs_example [])] c1
            = Inr ([OK, OK], c1)
        \<and> opens c1 = 1)
   \<and> Wait True executor_example rpc_ok [] (hdfs_example []) coord2 = Inr (OK, coord2)"
proof -
  let ?c = "coord2\<lparr>has_called_wait := False\<rparr>"
  obtain r c1 where w: "Wait True executor_example rpc_ok [] (hdfs_example []) ?c = Inr (r, c1)"
    by (simp add: Wait_def Wait_open_def eval_defs executor_example_def)
  note t = Wait_effects_once[of ?c True executor_example rpc_ok "[]" "hdfs_example []"
      "[(executor_example, rpc_ok, [], hdfs_example []),
        (executor_example, rpc_ok, [], hdfs_example [])]",
      THEN conjunct2, rule_format, OF w]
  have o: "opens ?c = 0" "\<not> has_called_wait ?c \<and> has_executor ?c" "has_called_wait coord2"
    by (simp_all add: opens_def coord2_def)
  note u = Wait_effects_once[of coord2 True executor_example rpc_ok "[]" "hdfs_example []" "[]",
      THEN conjunct1, THEN mp, OF o(3)]
  from w t u o show ?thesis by simp
qed

section \<open>C5: Cancel is idempotent\<close>

text \<open>
  Claim C5. Any number of \<^verbatim>\<open>Cancel\<close> calls, one after the other and with whatever
  causes, has the result of the first of them alone: the same state, the same
  trace of calls to the outside, or the same abnormal end. When the query status is
  not OK, \<^verbatim>\<open>Cancel\<close> returns without effect; when it is OK, \<^verbatim>\<open>Cancel\<close> sets it to the
  cause (to CANCELLED when the cause is null or OK) and runs \<^verbatim>\<open>CancelInternal\<close>,
  which returns unless the summary meets a null exec state. A \<^verbatim>\<open>Cancel\<close> that
  returns has sent \<^verbatim>\<open>CancelPlanFragment\<close> exactly once to each backend that was
  initiated, not done and OK and for which a client connection was obtained, and
  to no other backend (the one repetition of the call after a transport exception
  is the separate event \<open>CancelPlanFragmentRetry\<close>); further \<^verbatim>\<open>Cancel\<close> calls send
  nothing.
\<close>

theorem Cancel_idempotent:
  "run_env_ops dchecks (cancel_calls ((cause, rpc) # calls)) c = Cancel dchecks rpc cause c
   \<and> (\<not> ok (query_status c) \<longrightarrow> Cancel dchecks rpc cause c = Inr c)
   \<and> (ok (query_status c) \<longrightarrow>
        Cancel dchecks rpc cause c =
          CancelInternal dchecks rpc
            (c\<lparr>query_status :=
                 (case cause of None \<Rightarrow> CANCELLED | Some st \<Rightarrow> if ok st then CANCELLED else st)\<rparr>)
        \<and> ((has_called_wait c \<longrightarrow> None \<notin> set (backend_exec_states c)) \<longrightarrow>
             (\<exists>c1. Cancel dchecks rpc cause c = Inr c1)))
   \<and> (\<forall>c1. Cancel dchecks rpc cause c = Inr c1 \<longrightarrow>
         run_env_ops dchecks (cancel_calls calls) c1 = Inr c1
         \<and> (\<forall>i. count_list (trace c1) (CancelPlanFragmentRpc i)
                 = count_list (trace c) (CancelPlanFragmentRpc i)
                   + (if ok (query_status c) \<and> cancellable c i \<and> rpc i \<noteq> ConnectionFailed
                      then 1 else 0)))"
proof (intro conjI allI impI)
  show "run_env_ops dchecks (cancel_calls ((cause, rpc) # calls)) c = Cancel dchecks rpc cause c"
  proof (cases "Cancel dchecks rpc cause c")
    case (Inl e)
    then show ?thesis by (simp add: cancel_calls_def)
  next
    case (Inr c1)
    from run_cancel_calls_no_effect[OF Cancel_not_ok[OF Inr], of dchecks calls] Inr
    show ?thesis by (simp add: cancel_calls_def)
  qed
next
  assume "\<not> ok (query_status c)"
  then show "Cancel dchecks rpc cause c = Inr c" by (simp add: Cancel_def)
next
  assume "ok (query_status c)"
  then show "Cancel dchecks rpc cause c =
          CancelInternal dchecks rpc
            (c\<lparr>query_status :=
                 (case cause of None \<Rightarrow> CANCELLED | Some st \<Rightarrow> if ok st then CANCELLED else st)\<rparr>)"
    by (auto simp: Cancel_def split: option.splits)
next
  assume h: "ok (query_status c)" "has_called_wait c \<longrightarrow> None \<notin> set (backend_exec_states c)"
  let ?c0 = "c\<lparr>query_status :=
      (case cause of None \<Rightarrow> CANCELLED | Some st \<Rightarrow> if \<not> ok st then st else CANCELLED)\<rparr>"
  have "\<not> ok (query_status ?c0)" by (simp split: option.splits)
  from CancelInternal_returns[OF this, of dchecks rpc] h
  show "\<exists>c1. Cancel dchecks rpc cause c = Inr c1" by (simp add: Cancel_def)
next
  fix c1 assume "Cancel dchecks rpc cause c = Inr c1"
  from run_cancel_calls_no_effect[OF Cancel_not_ok[OF this]]
  show "run_env_ops dchecks (cancel_calls calls) c1 = Inr c1" .
next
  fix c1 i assume h: "Cancel dchecks rpc cause c = Inr c1"
  let ?c0 = "c\<lparr>query_status :=
      (case cause of None \<Rightarrow> CANCELLED | Some st \<Rightarrow> if \<not> ok st then st else CANCELLED)\<rparr>"
  have cc: "cancellable ?c0 i = cancellable c i" by (simp add: cancellable_def)
  from Cancel_Inr[OF h] consider (noop) "\<not> ok (query_status c)" "c1 = c"
    | (cancel) "ok (query_status c)" "CancelInternal dchecks rpc ?c0 = Inr c1"
    by blast
  then show "count_list (trace c1) (CancelPlanFragmentRpc i)
                 = count_list (trace c) (CancelPlanFragmentRpc i)
                   + (if ok (query_status c) \<and> cancellable c i \<and> rpc i \<noteq> ConnectionFailed
                      then 1 else 0)"
  proof cases
    case noop
    then show ?thesis by simp
  next
    case cancel
    from CancelInternal_rpc_count[OF cancel(2), of i] cancel(1) cc show ?thesis by simp
  qed
qed

theorem Cancel_idempotent_witness:
  "(\<exists>c1. Cancel True rpc_ok None coord2 = Inr c1
       \<and> run_env_ops True (cancel_calls [(Some parse_error, rpc_ok), (None, rpc_ok)]) c1 = Inr c1
       \<and> count_list (trace c1) (CancelPlanFragmentRpc 0) = 1
       \<and> count_list (trace c1) (CancelPlanFragmentRpc 1) = 1
       \<and> count_list (trace c1) (CancelPlanFragmentRpc 2) = 0)
   \<and> run_env_ops True (cancel_calls [(None, rpc_ok), (Some parse_error, rpc_ok), (None, rpc_ok)]) coord2
       = Cancel True rpc_ok None coord2
   \<and> Cancel True rpc_ok None (coord2\<lparr>query_status := parse_error\<rparr>)
       = Inr (coord2\<lparr>query_status := parse_error\<rparr>)"
proof -
  note t = Cancel_idempotent[of True None rpc_ok "[(Some parse_error, rpc_ok), (None, rpc_ok)]" coord2]
  have o: "ok (query_status coord2)"
    "has_called_wait coord2 \<longrightarrow> None \<notin> set (backend_exec_states coord2)"
    by (simp_all add: coord2_def)
  from t[THEN conjunct2, THEN conjunct2, THEN conjunct1, THEN mp, OF o(1), THEN conjunct2,
      THEN mp, OF o(2)]
  obtain c1 where c1: "Cancel True rpc_ok None coord2 = Inr c1" by blast
  note u = t[THEN conjunct2, THEN conjunct2, THEN conjunct2, rule_format, OF c1]
  have cc: "cancellable coord2 0" "cancellable coord2 1" "\<not> cancellable coord2 2"
    "rpc_ok 0 \<noteq> ConnectionFailed" "rpc_ok 1 \<noteq> ConnectionFailed" "trace coord2 = []"
    by (simp_all add: cancellable_def coord2_def es_running_def rpc_ok_def)
  have n: "\<not> ok (query_status (coord2\<lparr>query_status := parse_error\<rparr>))"
    by (simp add: parse_error_def)
  note v = Cancel_idempotent[of True None rpc_ok "[]" "coord2\<lparr>query_status := parse_error\<rparr>",
      THEN conjunct2, THEN conjunct1, rule_format, OF n]
  from c1 u[THEN conjunct1] u[THEN conjunct2, rule_format, of 0] u[THEN conjunct2, rule_format, of 1]
    u[THEN conjunct2, rule_format, of 2] t[THEN conjunct1] v cc o(1)
  show ?thesis by simp
qed

section \<open>C6: the final null batch\<close>




section \<open>C7: the write outputs of the workers are merged\<close>

text \<open>
  Claim C7. After any sequence of status reports (and \<^verbatim>\<open>Cancel\<close> calls) that returns,
  the count of every partition in \<^verbatim>\<open>partition_row_counts_\<close> is its count before plus
  the sum, in 64-bit arithmetic, of the counts that the merged reports gave for
  it, and the partitions of the map are those it had and those reported. The
  merged reports are exactly the reports for a known backend that have \<^verbatim>\<open>done\<close> set
  and carry \<^verbatim>\<open>insert_exec_status\<close>. \<^verbatim>\<open>files_to_move_\<close> is the union of the map it was
  and the reported maps, taken in the order of the reports (\<^verbatim>\<open>std::map::insert\<close>
  keeps the destination that a source has already); when no source has two
  different destinations, its entries are exactly the entries it had and those
  reported.
\<close>

theorem write_outputs_merged:
  "\<forall>c'. run_env_ops dchecks ops c = Inr c' \<longrightarrow>
     (\<forall>k. row_count (partition_row_counts c') k
            = row_count (partition_row_counts c) k
              + sum_list (map (reported_rows k) (merged_statuses c ops)))
     \<and> fst ` set (partition_row_counts c')
         = fst ` set (partition_row_counts c)
           \<union> (\<Union>ies \<in> set (merged_statuses c ops). fst ` set (ies_num_appended_rows ies))
     \<and> map_of (files_to_move c')
         = map_of (files_to_move c @ concat (map ies_files_to_move (merged_statuses c ops)))
     \<and> (distinct (map fst (files_to_move c))
          \<and> consistent (files_to_move c @ concat (map ies_files_to_move (merged_statuses c ops)))
        \<longrightarrow> set (files_to_move c')
              = set (files_to_move c)
                \<union> (\<Union>ies \<in> set (merged_statuses c ops). set (ies_files_to_move ies)))"
proof (intro allI impI)
  fix c' assume r: "run_env_ops dchecks ops c = Inr c'"
  note m = run_env_ops_maps[OF r]
  let ?all = "files_to_move c @ concat (map ies_files_to_move (merged_statuses c ops))"
  have "set (files_to_move c')
      = set (files_to_move c) \<union> (\<Union>ies \<in> set (merged_statuses c ops). set (ies_files_to_move ies))"
    if h: "distinct (map fst (files_to_move c)) \<and> consistent ?all"
  proof -
    from h m have "distinct (map fst (files_to_move c'))" by blast
    then have "set (files_to_move c') = Map.graph (map_of (files_to_move c'))"
      by (simp add: graph_map_of_consistent distinct_keys_consistent)
    also have "\<dots> = Map.graph (map_of ?all)" using m by (simp only:)
    also have "\<dots> = set ?all" using h by (intro graph_map_of_consistent) blast
    finally show ?thesis by simp
  qed
  then have "distinct (map fst (files_to_move c))
          \<and> consistent ?all
        \<longrightarrow> set (files_to_move c')
              = set (files_to_move c)
                \<union> (\<Union>ies \<in> set (merged_statuses c ops). set (ies_files_to_move ies))"
    by (rule impI)
  with m[THEN conjunct1] m[THEN conjunct2, THEN conjunct1] m[THEN conjunct2, THEN conjunct2, THEN conjunct1]
  show "(\<forall>k. row_count (partition_row_counts c') k
            = row_count (partition_row_counts c) k
              + sum_list (map (reported_rows k) (merged_statuses c ops)))
     \<and> fst ` set (partition_row_counts c')
         = fst ` set (partition_row_counts c)
           \<union> (\<Union>ies \<in> set (merged_statuses c ops). fst ` set (ies_num_appended_rows ies))
     \<and> map_of (files_to_move c')
         = map_of (files_to_move c @ concat (map ies_files_to_move (merged_statuses c ops)))
     \<and> (distinct (map fst (files_to_move c))
          \<and> consistent (files_to_move c @ concat (map ies_files_to_move (merged_statuses c ops)))
        \<longrightarrow> set (files_to_move c')
              = set (files_to_move c)
                \<union> (\<Union>ies \<in> set (merged_statuses c ops). set (ies_files_to_move ies)))"
    by (intro conjI)
qed

theorem write_outputs_merged_witness:
  "\<exists>c'. run_env_ops True [ReportExecStatus insert_report0 rpc_ok,
                           ReportExecStatus insert_report1 rpc_ok] coord_insert = Inr c'
     \<and> row_count (partition_row_counts c') ''p=1'' = 7
     \<and> row_count (partition_row_counts c') ''p=2'' = 5
     \<and> fst ` set (partition_row_counts c') = {''p=1'', ''p=2''}
     \<and> set (files_to_move c')
         = {(''/stage/a'', ''/t/p=1/a''), (''/stage/b'', ''/t/p=2/b''), (''/stage/dir'', [])}"
proof -
  let ?ops = "[ReportExecStatus insert_report0 rpc_ok, ReportExecStatus insert_report1 rpc_ok]"
  obtain c' where c': "run_env_ops True ?ops coord_insert = Inr c'"
    by (simp add: report_eval_defs eval_defs insert_eval_defs)
  have ms: "merged_statuses coord_insert ?ops
      = [insert_status [(''p=1'', 3)] [(''/stage/a'', ''/t/p=1/a''), (''/stage/dir'', [])],
         insert_status [(''p=2'', 5), (''p=1'', 4)]
           [(''/stage/b'', ''/t/p=2/b''), (''/stage/dir'', [])]]"
    by (simp add: merged_status_def insert_eval_defs report_def coord2_def)
  have init: "partition_row_counts coord_insert = []" "files_to_move coord_insert = []"
    by (simp_all add: coord_insert_def coord2_def)
  have cons: "distinct (map fst (files_to_move coord_insert))
      \<and> consistent (files_to_move coord_insert
           @ concat (map ies_files_to_move (merged_statuses coord_insert ?ops)))"
    unfolding ms init by (simp add: consistent_def insert_status_def)
  note t = write_outputs_merged[of True ?ops coord_insert, rule_format, OF c']
  note t1 = t[THEN conjunct1, rule_format, of "''p=1''"]
  note t2 = t[THEN conjunct1, rule_format, of "''p=2''"]
  note t3 = t[THEN conjunct2, THEN conjunct1]
  note t4 = t[THEN conjunct2, THEN conjunct2, THEN conjunct2, THEN mp, OF cons]
  have r1: "row_count (partition_row_counts c') ''p=1'' = 7"
    using t1 unfolding ms init by (simp add: row_count_def reported_rows_def insert_status_def)
  have r2: "row_count (partition_row_counts c') ''p=2'' = 5"
    using t2 unfolding ms init by (simp add: row_count_def reported_rows_def insert_status_def)
  have r3: "fst ` set (partition_row_counts c') = {''p=1'', ''p=2''}"
    using t3 unfolding ms init by (auto simp: insert_status_def)
  have r4: "set (files_to_move c')
         = {(''/stage/a'', ''/t/p=1/a''), (''/stage/b'', ''/t/p=2/b''), (''/stage/dir'', [])}"
    using t4 unfolding ms init by (auto simp: insert_status_def)
  from c' r1 r2 r3 r4 show ?thesis by blast
qed

section \<open>C8: overwriting an unpartitioned table\<close>

text \<open>
  Claim C8. In overwrite mode, for the single partition with the empty key, the
  first loop of \<^verbatim>\<open>FinalizeSuccessfulInsert\<close> lists the table directory and schedules
  the deletion of exactly the listed entries that are regular files and not
  hidden (or returns an error when the directory cannot be listed); every
  scheduled operation is a \<^verbatim>\<open>DELETE\<close> of such a file, so no listed directory is
  deleted. Whatever the partitions are, every \<^verbatim>\<open>DELETE\<close> that the loop schedules is
  one of these, and a recursive wipe (\<^verbatim>\<open>DELETE_THEN_CREATE\<close>) is only scheduled for
  a path below the table directory with a non-empty partition key. In a build that
  checks its \<^verbatim>\<open>DCHECK\<close>s, the loop gets past an empty key only when the map has exactly
  one entry. The operations scheduled for the root are the first set that
  \<^verbatim>\<open>FinalizeSuccessfulInsert\<close> executes.
\<close>

theorem overwrite_root_deletes_only_visible_files:
  "(is_overwrite fp \<longrightarrow>
      partition_create_ops dchecks fs fp 1 [([], cnt)] []
        = (case hdfsListDirectory fs (hdfs_base_dir fp @ ''/'') of
             None \<Rightarrow> Inr (Inl (Status_msg (GetHdfsErrorMsg fs ''Could not list directory: ''
                                   (hdfs_base_dir fp @ ''/''))))
           | Some files \<Rightarrow> Inr (Inr (root_deletions fs files)))
      \<and> (\<forall>r. [] \<in> fst ` set parts
             \<and> partition_create_ops True fs fp (length parts) parts [] = Inr r
           \<longrightarrow> length parts = 1))
   \<and> (\<forall>o' \<in> set (root_deletions fs files).
         op o' = DELETE \<and> dst o' = []
         \<and> (\<exists>f \<in> set files. src o' = mName f \<and> mKind f = kObjectKindFile
               \<and> \<not> IsHiddenFile fs (filename fs (mName f))))
   \<and> (\<forall>f \<in> set files. mKind f = kObjectKindFile \<and> \<not> IsHiddenFile fs (filename fs (mName f))
         \<longrightarrow> Add DELETE (mName f) \<in> set (root_deletions fs files))
   \<and> (\<forall>ops. partition_create_ops dchecks fs fp n parts [] = Inr (Inr ops)
         \<longrightarrow> (\<forall>o' \<in> set ops. root_or_partition_op fs fp o'))
   \<and> (\<forall>st c'. is_overwrite (finalize_params c) \<and> partition_row_counts c = [([], cnt)]
          \<and> hdfsListDirectory fs (hdfs_base_dir (finalize_params c) @ ''/'') = Some files
          \<and> FinalizeSuccessfulInsert dchecks fs c = Inr (st, c')
         \<longrightarrow> (\<exists>evs. trace c' = trace c @ Execute (root_deletions fs files) # evs))"
proof (intro conjI impI allI ballI)
  assume "is_overwrite fp"
  then show "partition_create_ops dchecks fs fp 1 [([], cnt)] []
        = (case hdfsListDirectory fs (hdfs_base_dir fp @ ''/'') of
             None \<Rightarrow> Inr (Inl (Status_msg (GetHdfsErrorMsg fs ''Could not list directory: ''
                                   (hdfs_base_dir fp @ ''/''))))
           | Some files \<Rightarrow> Inr (Inr (root_deletions fs files)))"
    by (rule partition_create_ops_root)
next
  fix r
  assume o: "is_overwrite fp"
    and h: "[] \<in> fst ` set parts \<and> partition_create_ops True fs fp (length parts) parts [] = Inr r"
  show "length parts = 1"
  proof (rule ccontr)
    assume "length parts \<noteq> 1"
    from partition_create_ops_dcheck[OF o _ this, of parts fs "[]"] h show False by simp
  qed
next
  fix o' assume "o' \<in> set (root_deletions fs files)"
  from root_deletions_only_files[OF this]
  show "op o' = DELETE" "dst o' = []"
    "\<exists>f \<in> set files. src o' = mName f \<and> mKind f = kObjectKindFile
               \<and> \<not> IsHiddenFile fs (filename fs (mName f))"
    by simp_all
next
  fix f
  assume "f \<in> set files" "mKind f = kObjectKindFile \<and> \<not> IsHiddenFile fs (filename fs (mName f))"
  then show "Add DELETE (mName f) \<in> set (root_deletions fs files)"
    by (simp add: root_deletions_all_files)
next
  fix ops o'
  assume "partition_create_ops dchecks fs fp n parts [] = Inr (Inr ops)" "o' \<in> set ops"
  with partition_create_ops_added[of dchecks fs fp n parts "[]" ops]
  show "root_or_partition_op fs fp o'" by auto
next
  fix st c'
  assume h: "is_overwrite (finalize_params c) \<and> partition_row_counts c = [([], cnt)]
          \<and> hdfsListDirectory fs (hdfs_base_dir (finalize_params c) @ ''/'') = Some files
          \<and> FinalizeSuccessfulInsert dchecks fs c = Inr (st, c')"
  then have "partition_create_ops dchecks fs (finalize_params c) (length (partition_row_counts c))
      (partition_row_counts c) [] = Inr (Inr (root_deletions fs files))"
    by (simp add: DCHECK_def Let_def)
  from FinalizeSuccessfulInsert_trace[OF this] h
  show "\<exists>evs. trace c' = trace c @ Execute (root_deletions fs files) # evs"
    by blast
qed

theorem overwrite_root_deletes_only_visible_files_witness:
  "partition_create_ops True (hdfs_example []) overwrite_params 1 [([], 7)] []
     = Inr (Inr [Add DELETE ''/t/data0''])
   \<and> op (Add DELETE ''/t/data0'') = DELETE
   \<and> root_or_partition_op (hdfs_example []) overwrite_params (Add DELETE ''/t/data0'')
   \<and> \<not> (\<exists>r. partition_create_ops True (hdfs_example []) overwrite_params 2
               [([], 7), (''p=1'', 1)] [] = Inr r)"
proof -
  let ?fs = "hdfs_example []"
  let ?files = "[\<lparr>mName = ''/t/data0'', mKind = kObjectKindFile\<rparr>,
                 \<lparr>mName = ''/t/.hidden'', mKind = kObjectKindFile\<rparr>,
                 \<lparr>mName = ''/t/stage'', mKind = kObjectKindDirectory\<rparr>]"
  note t = overwrite_root_deletes_only_visible_files[of overwrite_params True ?fs 7
      "[([], 7), (''p=1'', 1)]" ?files 1 coord_finalize]
  have ov: "is_overwrite overwrite_params" by (simp add: overwrite_params_def)
  have l: "hdfsListDirectory ?fs (hdfs_base_dir overwrite_params @ ''/'') = Some ?files"
    by (simp add: hdfs_example_def overwrite_params_def)
  have rd: "root_deletions ?fs ?files = [Add DELETE ''/t/data0'']"
    by (simp add: root_deletions_def hdfs_example_def)
  have a: "partition_create_ops True ?fs overwrite_params 1 [([], 7)] []
     = Inr (Inr [Add DELETE ''/t/data0''])"
    by (simp only: t[THEN conjunct1, THEN mp, OF ov, THEN conjunct1] l option.simps rd)
  have "Add DELETE ''/t/data0'' \<in> set (root_deletions ?fs ?files)"
    by (simp only: rd list.set insertI1)
  from t[THEN conjunct2, THEN conjunct1, rule_format, OF this]
  have b: "op (Add DELETE ''/t/data0'') = DELETE" by (rule conjunct1)
  note u = overwrite_root_deletes_only_visible_files[of overwrite_params True ?fs 7
      "[([], 7)]" ?files 1 coord_finalize, THEN conjunct2, THEN conjunct2, THEN conjunct2,
      THEN conjunct1, rule_format, OF a]
  have c: "root_or_partition_op ?fs overwrite_params (Add DELETE ''/t/data0'')"
    by (rule u) simp
  have d: "\<not> (\<exists>r. partition_create_ops True ?fs overwrite_params 2
               [([], 7), (''p=1'', 1)] [] = Inr r)"
  proof
    assume "\<exists>r. partition_create_ops True ?fs overwrite_params 2 [([], 7), (''p=1'', 1)] [] = Inr r"
    then obtain r where r: "partition_create_ops True ?fs overwrite_params 2
        [([], 7), (''p=1'', 1)] [] = Inr r"
      by blast
    have len: "length [([]::string, 7::64 word), (''p=1'', 1)] = 2" by simp
    have "[] \<in> fst ` set [([]::string, 7::64 word), (''p=1'', 1)]
        \<and> partition_create_ops True ?fs overwrite_params
            (length [([]::string, 7::64 word), (''p=1'', 1)]) [([], 7), (''p=1'', 1)] [] = Inr r"
      unfolding len using r by (simp del: partition_create_ops.simps)
    from t[THEN conjunct1, THEN mp, OF ov, THEN conjunct2, rule_format, OF this]
    show False by simp
  qed
  from a b c d show ?thesis by blast
qed

section \<open>C9: errors of the partition operations\<close>

text \<open>
  Claim C9. When every error that the execution of the partition operations
  records belongs to a \<^verbatim>\<open>CREATE_DIR\<close> operation, \<^verbatim>\<open>FinalizeSuccessfulInsert\<close> goes on
  to execute the file moves, and returns OK when the moves and the deletion of the
  staging directories record no error. When some recorded error belongs to another
  operation (a deletion), \<^verbatim>\<open>FinalizeSuccessfulInsert\<close> returns, without executing
  anything else, an error status whose message gives the number of recorded
  errors and the message of the first recorded error that is not a directory
  creation.
\<close>

theorem creation_errors_tolerated_deletion_errors_fatal:
  "\<forall>ops. partition_create_ops dchecks fs (finalize_params c) (length (partition_row_counts c))
           (partition_row_counts c) [] = Inr (Inr ops) \<longrightarrow>
     ((\<forall>e \<in> set (partition_create_errors fs ops). op (fst e) = CREATE_DIR) \<longrightarrow>
        (\<exists>st c' evs. FinalizeSuccessfulInsert dchecks fs c = Inr (st, c')
           \<and> trace c' = trace c @ Execute ops # Execute (move_ops_of (files_to_move c)) # evs)
        \<and> (move_errors fs (move_ops_of (files_to_move c)) = []
            \<and> dir_deletion_errors fs (dir_deletion_ops_of (files_to_move c)) = []
           \<longrightarrow> (\<exists>c'. FinalizeSuccessfulInsert dchecks fs c = Inr (OK, c'))))
     \<and> ((\<exists>e \<in> set (partition_create_errors fs ops). op (fst e) \<noteq> CREATE_DIR) \<longrightarrow>
          (\<exists>err \<in> set (partition_create_errors fs ops). op (fst err) \<noteq> CREATE_DIR
             \<and> find (\<lambda>e. op (fst e) \<noteq> CREATE_DIR) (partition_create_errors fs ops) = Some err
             \<and> FinalizeSuccessfulInsert dchecks fs c =
                 Inr (Status_msg (''Error(s) deleting partition directories. First error (of ''
                        @ show_nat (length (partition_create_errors fs ops)) @ '') was: ''
                        @ snd err),
                      emit [Execute ops] c)))"
proof (intro allI impI conjI)
  fix ops
  assume p: "partition_create_ops dchecks fs (finalize_params c) (length (partition_row_counts c))
           (partition_row_counts c) [] = Inr (Inr ops)"
    and t: "\<forall>e \<in> set (partition_create_errors fs ops). op (fst e) = CREATE_DIR"
  from t have n: "partition_create_failure (partition_create_errors fs ops) = None"
    by (simp add: partition_create_failure_None)
  show "\<exists>st c' evs. FinalizeSuccessfulInsert dchecks fs c = Inr (st, c')
           \<and> trace c' = trace c @ Execute ops # Execute (move_ops_of (files_to_move c)) # evs"
    unfolding FinalizeSuccessfulInsert_unfold[OF p] n by simp
  show "\<exists>c'. FinalizeSuccessfulInsert dchecks fs c = Inr (OK, c')"
    if "move_errors fs (move_ops_of (files_to_move c)) = []
            \<and> dir_deletion_errors fs (dir_deletion_ops_of (files_to_move c)) = []"
    unfolding FinalizeSuccessfulInsert_unfold[OF p] n using that by simp
next
  fix ops
  assume p: "partition_create_ops dchecks fs (finalize_params c) (length (partition_row_counts c))
           (partition_row_counts c) [] = Inr (Inr ops)"
    and t: "\<exists>e \<in> set (partition_create_errors fs ops). op (fst e) \<noteq> CREATE_DIR"
  from partition_create_failure_Some[OF t] obtain err where
    err: "err \<in> set (partition_create_errors fs ops)" "op (fst err) \<noteq> CREATE_DIR"
      "find (\<lambda>e. op (fst e) \<noteq> CREATE_DIR) (partition_create_errors fs ops) = Some err"
      "partition_create_failure (partition_create_errors fs ops) =
         Some (Status_msg (''Error(s) deleting partition directories. First error (of ''
                 @ show_nat (length (partition_create_errors fs ops)) @ '') was: '' @ snd err))"
    by blast
  show "\<exists>err \<in> set (partition_create_errors fs ops). op (fst err) \<noteq> CREATE_DIR
             \<and> find (\<lambda>e. op (fst e) \<noteq> CREATE_DIR) (partition_create_errors fs ops) = Some err
             \<and> FinalizeSuccessfulInsert dchecks fs c =
                 Inr (Status_msg (''Error(s) deleting partition directories. First error (of ''
                        @ show_nat (length (partition_create_errors fs ops)) @ '') was: ''
                        @ snd err),
                      emit [Execute ops] c)"
    unfolding FinalizeSuccessfulInsert_unfold[OF p] err(4)
    using err(1-3) by (intro bexI[of _ err]) simp_all
qed

theorem creation_errors_tolerated_deletion_errors_fatal_witness:
  "(\<exists>c'. FinalizeSuccessfulInsert True
            (hdfs_example [(Add CREATE_DIR ''/t/p=2'', ''File exists'')]) coord_finalize
          = Inr (OK, c'))
   \<and> FinalizeSuccessfulInsert True
        (hdfs_example [(Add CREATE_DIR ''/t/p=2'', ''File exists''),
                       (Add DELETE_THEN_CREATE ''/t/p=1'', ''Permission denied'')]) coord_finalize
      = Inr (Status_msg
               ''Error(s) deleting partition directories. First error (of 2) was: Permission denied'',
             emit [Execute [Add DELETE_THEN_CREATE ''/t/p=1'', Add CREATE_DIR ''/t/p=2'']]
               coord_finalize)"
proof -
  let ?e1 = "[(Add CREATE_DIR ''/t/p=2'', ''File exists'')]"
  let ?e2 = "[(Add CREATE_DIR ''/t/p=2'', ''File exists''),
              (Add DELETE_THEN_CREATE ''/t/p=1'', ''Permission denied'')]"
  let ?ops = "[Add DELETE_THEN_CREATE ''/t/p=1'', Add CREATE_DIR ''/t/p=2'']"
  have p: "partition_create_ops True (hdfs_example errs) (finalize_params coord_finalize)
      (length (partition_row_counts coord_finalize)) (partition_row_counts coord_finalize) []
      = Inr (Inr ?ops)" for errs
    by (simp add: finalize_eval_defs)
  have e: "partition_create_errors (hdfs_example errs) ops = errs"
    "move_errors (hdfs_example errs) ops = []" "dir_deletion_errors (hdfs_example errs) ops = []"
    for errs ops
    by (simp_all add: hdfs_example_def)
  note t1 = creation_errors_tolerated_deletion_errors_fatal[of True "hdfs_example ?e1"
      coord_finalize, rule_format, OF p, THEN conjunct1]
  have h1: "\<forall>e \<in> set (partition_create_errors (hdfs_example ?e1) ?ops). op (fst e) = CREATE_DIR"
    unfolding e by (simp add: Add_def)
  have a: "\<exists>c'. FinalizeSuccessfulInsert True (hdfs_example ?e1) coord_finalize = Inr (OK, c')"
    using t1[THEN mp, OF h1, THEN conjunct2] unfolding e by simp
  note t2 = creation_errors_tolerated_deletion_errors_fatal[of True "hdfs_example ?e2"
      coord_finalize, rule_format, OF p, THEN conjunct2]
  have h2: "\<exists>e \<in> set (partition_create_errors (hdfs_example ?e2) ?ops). op (fst e) \<noteq> CREATE_DIR"
    unfolding e by (simp add: Add_def)
  from t2[THEN mp, OF h2]
  have b: "FinalizeSuccessfulInsert True (hdfs_example ?e2) coord_finalize
      = Inr (Status_msg
               ''Error(s) deleting partition directories. First error (of 2) was: Permission denied'',
             emit [Execute ?ops] coord_finalize)"
    unfolding e by (auto simp: Add_def hex_digit_def)
  from a b show ?thesis by blast
qed

section \<open>C10: parsing of the debug_action query option\<close>

text \<open>
  Claim C10. A \<^verbatim>\<open>debug_action\<close> string that splits into fewer than 3 or more than 4
  components leaves the default-constructed debug options as they are: the phase
  is \<^verbatim>\<open>INVALID\<close> and no backend is given debug options. With 3 or 4 components, a
  phase component that matches no name of the phase table gives the phase
  \<^verbatim>\<open>INVALID\<close>, and again no backend is given debug options. An action component
  that matches no name of the action table gives the action \<^verbatim>\<open>WAIT\<close>; the options
  are not rejected for it (only the combination with the phase \<^verbatim>\<open>CLOSE\<close> fails the
  final \<^verbatim>\<open>DCHECK\<close> of a build that checks it).
\<close>

theorem debug_action_parsing:
  "(length (split_compress (is_any_of '':'') s) < 3 \<or> 4 < length (split_compress (is_any_of '':'') s) \<longrightarrow>
      ProcessQueryOptions dchecks env (Some s) (DebugOptions_init env) = Inr (DebugOptions_init env)
      \<and> phase (DebugOptions_init env) = PHASE_INVALID env
      \<and> (\<forall>n. backend_debug_options env (DebugOptions_init env) n = None))
   \<and> (\<forall>x a b. split_compress (is_any_of '':'') s = [x, a, b] \<and> lookup_name (phase_names env) a = None
         \<and> PHASE_INVALID env \<noteq> PHASE_CLOSE env \<longrightarrow>
        (\<exists>d. ProcessQueryOptions dchecks env (Some s) (DebugOptions_init env) = Inr d
           \<and> phase d = PHASE_INVALID env \<and> (\<forall>n. backend_debug_options env d n = None)))
   \<and> (\<forall>y x a b. split_compress (is_any_of '':'') s = [y, x, a, b] \<and> lookup_name (phase_names env) a = None
         \<and> PHASE_INVALID env \<noteq> PHASE_CLOSE env \<longrightarrow>
        (\<exists>d. ProcessQueryOptions dchecks env (Some s) (DebugOptions_init env) = Inr d
           \<and> phase d = PHASE_INVALID env \<and> (\<forall>n. backend_debug_options env d n = None)))
   \<and> (\<forall>x a b. split_compress (is_any_of '':'') s = [x, a, b] \<and> lookup_name (action_names env) b = None \<longrightarrow>
        GetDebugAction env b = ACTION_WAIT env
        \<and> ProcessQueryOptions dchecks env (Some s) (DebugOptions_init env) =
            (if dchecks \<and> GetExecNodePhase env a = PHASE_CLOSE env then Inl DCheckFailed
             else Inr \<lparr>backend_num = - 1, node_id = atoi env x, action = ACTION_WAIT env,
                       phase = GetExecNodePhase env a\<rparr>))
   \<and> (\<forall>y x a b. split_compress (is_any_of '':'') s = [y, x, a, b] \<and> lookup_name (action_names env) b = None \<longrightarrow>
        GetDebugAction env b = ACTION_WAIT env
        \<and> ProcessQueryOptions dchecks env (Some s) (DebugOptions_init env) =
            (if dchecks \<and> GetExecNodePhase env a = PHASE_CLOSE env then Inl DCheckFailed
             else Inr \<lparr>backend_num = atoi env y, node_id = atoi env x, action = ACTION_WAIT env,
                       phase = GetExecNodePhase env a\<rparr>))"
proof (intro conjI allI impI)
  assume "length (split_compress (is_any_of '':'') s) < 3 \<or> 4 < length (split_compress (is_any_of '':'') s)"
  then show "ProcessQueryOptions dchecks env (Some s) (DebugOptions_init env) = Inr (DebugOptions_init env)"
    by (auto simp: ProcessQueryOptions_def DebugOptions_init_def Let_def)
next
  show "phase (DebugOptions_init env) = PHASE_INVALID env"
    by (simp add: DebugOptions_init_def)
next
  fix n show "backend_debug_options env (DebugOptions_init env) n = None"
    by (simp add: backend_debug_options_def DebugOptions_init_def)
next
  fix x a b
  assume h: "split_compress (is_any_of '':'') s = [x, a, b] \<and> lookup_name (phase_names env) a = None
         \<and> PHASE_INVALID env \<noteq> PHASE_CLOSE env"
  then have "s \<noteq> []" by (auto simp: split_compress_def)
  with h show "\<exists>d. ProcessQueryOptions dchecks env (Some s) (DebugOptions_init env) = Inr d
           \<and> phase d = PHASE_INVALID env \<and> (\<forall>n. backend_debug_options env d n = None)"
    by (simp add: ProcessQueryOptions_def Let_def GetExecNodePhase_def DCHECK_def bind_r_def
        backend_debug_options_def)
next
  fix y x a b
  assume h: "split_compress (is_any_of '':'') s = [y, x, a, b] \<and> lookup_name (phase_names env) a = None
         \<and> PHASE_INVALID env \<noteq> PHASE_CLOSE env"
  then have "s \<noteq> []" by (auto simp: split_compress_def)
  with h show "\<exists>d. ProcessQueryOptions dchecks env (Some s) (DebugOptions_init env) = Inr d
           \<and> phase d = PHASE_INVALID env \<and> (\<forall>n. backend_debug_options env d n = None)"
    by (simp add: ProcessQueryOptions_def Let_def GetExecNodePhase_def DCHECK_def bind_r_def
        backend_debug_options_def)
next
  fix x a b
  assume h: "split_compress (is_any_of '':'') s = [x, a, b] \<and> lookup_name (action_names env) b = None"
  then show "GetDebugAction env b = ACTION_WAIT env" by (simp add: GetDebugAction_def)
  from h have "s \<noteq> []" by (auto simp: split_compress_def)
  with h show "ProcessQueryOptions dchecks env (Some s) (DebugOptions_init env) =
            (if dchecks \<and> GetExecNodePhase env a = PHASE_CLOSE env then Inl DCheckFailed
             else Inr \<lparr>backend_num = - 1, node_id = atoi env x, action = ACTION_WAIT env,
                       phase = GetExecNodePhase env a\<rparr>)"
    by (simp add: ProcessQueryOptions_def Let_def GetDebugAction_def DCHECK_def bind_r_def
        DebugOptions_init_def)
next
  fix y x a b
  assume h: "split_compress (is_any_of '':'') s = [y, x, a, b] \<and> lookup_name (action_names env) b = None"
  then show "GetDebugAction env b = ACTION_WAIT env" by (simp add: GetDebugAction_def)
  from h have "s \<noteq> []" by (auto simp: split_compress_def)
  with h show "ProcessQueryOptions dchecks env (Some s) (DebugOptions_init env) =
            (if dchecks \<and> GetExecNodePhase env a = PHASE_CLOSE env then Inl DCheckFailed
             else Inr \<lparr>backend_num = atoi env y, node_id = atoi env x, action = ACTION_WAIT env,
                       phase = GetExecNodePhase env a\<rparr>)"
    by (simp add: ProcessQueryOptions_def Let_def GetDebugAction_def DCHECK_def bind_r_def
        DebugOptions_init_def)
qed

theorem debug_action_parsing_witness:
  "ProcessQueryOptions True debug_env (Some ''2:open'') (DebugOptions_init debug_env)
     = Inr (DebugOptions_init debug_env)
   \<and> backend_debug_options debug_env (DebugOptions_init debug_env) 0 = None
   \<and> (\<exists>d. ProcessQueryOptions True debug_env (Some ''2:bogus:fail'') (DebugOptions_init debug_env) = Inr d
         \<and> phase d = 4 \<and> backend_debug_options debug_env d 0 = None)
   \<and> (\<exists>d. ProcessQueryOptions True debug_env (Some ''7:2:bogus:fail'') (DebugOptions_init debug_env) = Inr d
         \<and> phase d = 4 \<and> backend_debug_options debug_env d 7 = None)
   \<and> ProcessQueryOptions True debug_env (Some ''2:open:bogus'') (DebugOptions_init debug_env)
       = Inr \<lparr>backend_num = - 1, node_id = 2, action = 0, phase = 1\<rparr>
   \<and> ProcessQueryOptions True debug_env (Some ''7:2:close:bogus'') (DebugOptions_init debug_env)
       = Inl DCheckFailed
   \<and> ProcessQueryOptions False debug_env (Some ''7:2:close:bogus'') (DebugOptions_init debug_env)
       = Inr \<lparr>backend_num = 7, node_id = 2, action = 0, phase = 3\<rparr>"
proof -
  have s1: "length (split_compress (is_any_of '':'') ''2:open'') < 3
      \<or> 4 < length (split_compress (is_any_of '':'') ''2:open'')"
    by (simp add: split_compress_def is_any_of_def)
  have s2: "split_compress (is_any_of '':'') ''2:bogus:fail'' = [''2'', ''bogus'', ''fail'']
     \<and> lookup_name (phase_names debug_env) ''bogus'' = None
     \<and> PHASE_INVALID debug_env \<noteq> PHASE_CLOSE debug_env"
    by (simp add: split_compress_def is_any_of_def debug_env_def iequals_def to_upper_def)
  have s3: "split_compress (is_any_of '':'') ''7:2:bogus:fail'' = [''7'', ''2'', ''bogus'', ''fail'']
     \<and> lookup_name (phase_names debug_env) ''bogus'' = None
     \<and> PHASE_INVALID debug_env \<noteq> PHASE_CLOSE debug_env"
    by (simp add: split_compress_def is_any_of_def debug_env_def iequals_def to_upper_def)
  have s4: "split_compress (is_any_of '':'') ''2:open:bogus'' = [''2'', ''open'', ''bogus'']
     \<and> lookup_name (action_names debug_env) ''bogus'' = None"
    by (simp add: split_compress_def is_any_of_def debug_env_def iequals_def to_upper_def)
  have s5: "split_compress (is_any_of '':'') ''7:2:close:bogus'' = [''7'', ''2'', ''close'', ''bogus'']
     \<and> lookup_name (action_names debug_env) ''bogus'' = None"
    by (simp add: split_compress_def is_any_of_def debug_env_def iequals_def to_upper_def)
  have g: "GetExecNodePhase debug_env ''open'' = 1" "GetExecNodePhase debug_env ''close'' = 3"
    "PHASE_CLOSE debug_env = 3" "PHASE_INVALID debug_env = 4" "ACTION_WAIT debug_env = 0"
    "atoi debug_env ''2'' = 2" "atoi debug_env ''7'' = 7"
    by (simp_all add: GetExecNodePhase_def debug_env_def iequals_def to_upper_def)
  note t1 = debug_action_parsing[of "''2:open''" True debug_env, THEN conjunct1, rule_format, OF s1]
  note t2 = debug_action_parsing[of "''2:bogus:fail''" True debug_env,
      THEN conjunct2, THEN conjunct1, rule_format, OF s2]
  note t3 = debug_action_parsing[of "''7:2:bogus:fail''" True debug_env,
      THEN conjunct2, THEN conjunct2, THEN conjunct1, rule_format, OF s3]
  note t4 = debug_action_parsing[of "''2:open:bogus''" True debug_env,
      THEN conjunct2, THEN conjunct2, THEN conjunct2, THEN conjunct1, rule_format, OF s4]
  note t5 = debug_action_parsing[of "''7:2:close:bogus''" True debug_env,
      THEN conjunct2, THEN conjunct2, THEN conjunct2, THEN conjunct2, rule_format, OF s5]
  note t6 = debug_action_parsing[of "''7:2:close:bogus''" False debug_env,
      THEN conjunct2, THEN conjunct2, THEN conjunct2, THEN conjunct2, rule_format, OF s5]
  from t1 t2 t3 t4 t5 t6 show ?thesis by (simp add: g) blast
qed

end
